theory Spec2Isabelle
  imports Main "HOL-Library.Char_ord" "HOL-Library.List_Lexorder" "HOL-Library.AList" "HOL-Library.Sublist"
begin

section \<open>Configuration records (pkg/types/types.go)\<close>

text \<open>
  Go maps are modelled as association lists whose order is the order in which the
  runtime ranges over the map; every statement below is for an arbitrary such order.
  Tag values are \<open>interface{}\<close> in the source and only ever formatted with \<open>%v\<close>;
  the model keeps the scalar kinds a YAML document gives (string, boolean, integer).
  The \<open>Properties\<close>, \<open>Templates\<close> and \<open>Variables\<close> maps of a node, and the
  URL, branch, command and credential fields of the configuration, are written but never
  read by the functions modelled here and are left out.
\<close>

datatype TagValue = VString string | VBool bool | VInt int

record Repository =
  repoName :: string
  repoPath :: string
  repoTags :: "(string \<times> TagValue) list"
  repoLabels :: "string list"
  repoDisabled :: bool

record GlobalConfig =
  BasePath :: string
  Workers :: int
  Timeout :: int
  Environment :: "(string \<times> string) list"
  globalTags :: "(string \<times> TagValue) list"
  globalLabels :: "string list"

record Config =
  Includes :: "string list"
  Global :: GlobalConfig
  Repositories :: "Repository list"
  Groups :: "(string \<times> string list) list"

section \<open>Graph model (graph types)\<close>

datatype NodeType =
  NodeTypeRoot | NodeTypeConfig | NodeTypeRepository | NodeTypeGroup
  | NodeTypeTemplate | NodeTypeTag | NodeTypeLabel

datatype RelationType =
  RelationParentChild | RelationIncludes | RelationDefines | RelationInherits
  | RelationDependsOn | RelationTriggers | RelationTaggedWith | RelationLabeledWith

record GroupDefinition =
  groupName :: string
  ExplicitRepos :: "string list"
  InheritedRepos :: "string list"
  IsEmpty :: bool

record TagDefinition =
  tagName :: string
  tagValue :: TagValue
  tagScope :: string
  tagSourceType :: string

record LabelDefinition =
  labelName :: string
  labelScope :: string
  labelSourceType :: string

text \<open>
  A node. Pointers to nodes (\<open>Parent\<close>, \<open>Children\<close>, the entries of the indexes, the
  endpoints of a relationship) are modelled by the node's ID, resolved in the graph's
  \<open>Nodes\<close> store.
\<close>

record GraphNode =
  ID :: string
  Type :: NodeType
  Name :: string
  Level :: int
  Path :: "string list"
  FullPath :: string
  Parent :: "string option"
  Children :: "string list"
  Tags :: "string list"
  IsDerived :: bool
  SourceConfig :: string
  IsExplicit :: bool
  ConfigData :: "Config option"
  RepositoryData :: "Repository option"
  GroupData :: "GroupDefinition option"
  TagData :: "TagDefinition option"
  LabelData :: "LabelDefinition option"

definition NewGraphNode :: "string \<Rightarrow> NodeType \<Rightarrow> string \<Rightarrow> GraphNode" where
  "NewGraphNode i t n =
     \<lparr> ID = i, Type = t, Name = n, Level = 0, Path = [], FullPath = [],
       Parent = None, Children = [], Tags = [], IsDerived = False, SourceConfig = [],
       IsExplicit = True, ConfigData = None, RepositoryData = None, GroupData = None,
       TagData = None, LabelData = None \<rparr>"

subsection \<open>Strings\<close>

text \<open>\<open>strings.Join\<close>.\<close>

fun Join :: "string list \<Rightarrow> string \<Rightarrow> string" where
  "Join [] sep = []"
| "Join [x] sep = x"
| "Join (x # y # ys) sep = x @ sep @ Join (y # ys) sep"

text \<open>\<open>strings.HasPrefix(s, p)\<close>.\<close>

definition HasPrefix :: "string \<Rightarrow> string \<Rightarrow> bool" where
  "HasPrefix s p = (take (length p) s = p)"

text \<open>\<open>strings.HasSuffix(s, p)\<close>.\<close>

definition HasSuffix :: "string \<Rightarrow> string \<Rightarrow> bool" where
  "HasSuffix s p = (length p \<le> length s \<and> drop (length s - length p) s = p)"

text \<open>\<open>strings.Split(s, sep)\<close> for a separator of one character: the pieces between the
  separators, the first argument accumulating the piece being read.\<close>

fun splitAcc :: "string \<Rightarrow> char \<Rightarrow> string \<Rightarrow> string list" where
  "splitAcc acc c [] = [acc]"
| "splitAcc acc c (x # xs) = (if x = c then acc # splitAcc [] c xs else splitAcc (acc @ [x]) c xs)"

definition Split :: "string \<Rightarrow> char \<Rightarrow> string list" where
  "Split s c = splitAcc [] c s"

text \<open>\<open>strings.ReplaceAll(s, "/", "_")\<close>, for single characters.\<close>

definition ReplaceAll :: "string \<Rightarrow> char \<Rightarrow> char \<Rightarrow> string" where
  "ReplaceAll s a b = map (\<lambda>x. if x = a then b else x) s"

subsection \<open>Node helpers\<close>

text \<open>\<open>AddChild\<close> mutates both nodes; the model returns the new parent and the new child.\<close>

definition AddChild :: "GraphNode \<Rightarrow> GraphNode \<Rightarrow> GraphNode \<times> GraphNode" where
  "AddChild n child =
     (let p = Path n @ (if Type n \<noteq> NodeTypeRoot then [Name n] else []);
          fp = Join p ''/'';
          child' = child \<lparr> Parent := Some (ID n), Level := Level n + 1, Path := p,
                          FullPath := (if fp = [] then ''root'' else fp) \<rparr>
      in (n \<lparr> Children := Children n @ [ID child] \<rparr>, child'))"

text \<open>\<open>GetPathString\<close> returns the full path, computing it from \<open>Path\<close> when the field is
  empty; the source also stores the computed value in the field (\<open>cachePath\<close>).\<close>

definition GetPathString :: "GraphNode \<Rightarrow> string" where
  "GetPathString n =
     (if FullPath n = [] then (if Join (Path n) ''/'' = [] then ''root'' else Join (Path n) ''/'')
      else FullPath n)"

definition cachePath :: "GraphNode \<Rightarrow> GraphNode" where
  "cachePath n = n \<lparr> FullPath := GetPathString n \<rparr>"

definition IsInScope :: "GraphNode \<Rightarrow> GraphNode \<Rightarrow> bool" where
  "IsInScope n scopeNode =
     (if Type scopeNode = NodeTypeRoot then True
      else let scopePath = GetPathString scopeNode; nodePath = GetPathString n in
        if scopePath = ''root'' then nodePath = ''root''
        else nodePath = scopePath \<or> HasPrefix nodePath (scopePath @ ''/''))"

definition MarkAsDerived :: "string \<Rightarrow> GraphNode \<Rightarrow> GraphNode" where
  "MarkAsDerived src n = n \<lparr> IsDerived := True, IsExplicit := False, SourceConfig := src \<rparr>"

definition MarkAsExplicit :: "string \<Rightarrow> GraphNode \<Rightarrow> GraphNode" where
  "MarkAsExplicit src n = n \<lparr> IsDerived := False, IsExplicit := True, SourceConfig := src \<rparr>"


section \<open>The indexed graph (graph query engine)\<close>

record Relationship =
  relID :: string
  FromID :: string
  ToID :: string
  relType :: RelationType

definition NewRelationship :: "string \<Rightarrow> GraphNode \<Rightarrow> GraphNode \<Rightarrow> RelationType \<Rightarrow> Relationship" where
  "NewRelationship i fromNode toNode t =
     \<lparr> relID = i, FromID = ID fromNode, ToID = ID toNode, relType = t \<rparr>"

text \<open>
  The two primary maps are association lists in insertion order, because the source ranges
  over them; the order in which the Go runtime does so is not the insertion order and is
  a parameter wherever it matters. The indexes hold node and relationship IDs.
\<close>

record RepositoryGraph =
  Root :: "string option"
  Nodes :: "(string \<times> GraphNode) list"
  Relationships :: "(string \<times> Relationship) list"
  NodesByType :: "NodeType \<Rightarrow> string list"
  NodesByLevel :: "int \<Rightarrow> string list"
  NodesByPath :: "string \<Rightarrow> string option"
  NodesByTag :: "string \<Rightarrow> string list"
  RelationsByType :: "RelationType \<Rightarrow> string list"
  RelationsByFrom :: "string \<Rightarrow> string list"
  RelationsByTo :: "string \<Rightarrow> string list"
  AllRepositories :: "string \<Rightarrow> string option"
  AllGroups :: "string \<Rightarrow> string option"

definition NewRepositoryGraph :: RepositoryGraph where
  "NewRepositoryGraph =
     \<lparr> Root = None, Nodes = [], Relationships = [],
       NodesByType = (\<lambda>_. []), NodesByLevel = (\<lambda>_. []), NodesByPath = (\<lambda>_. None),
       NodesByTag = (\<lambda>_. []), RelationsByType = (\<lambda>_. []), RelationsByFrom = (\<lambda>_. []),
       RelationsByTo = (\<lambda>_. []), AllRepositories = (\<lambda>_. None), AllGroups = (\<lambda>_. None) \<rparr>"

text \<open>
  Errors. The leaves are the errors the graph code creates itself and the two it receives
  from its collaborators; \<open>Wrap msg e\<close> is \<open>fmt.Errorf("msg: %w", e)\<close>. \<open>NilNode\<close> stands
  for the dereference of a node pointer that the store does not hold.
\<close>

datatype error =
    AbsError
  | LoadError
  | CircularDependency string
  | NodeExists string
  | RelationshipExists string
  | MissingFromNode string string
  | MissingToNode string string
  | CycleDetected string
  | NilNode string
  | Wrap string error

definition GetNode :: "RepositoryGraph \<Rightarrow> string \<Rightarrow> GraphNode option" where
  "GetNode g i = map_of (Nodes g) i"

text \<open>The nodes an index entry points to, in the order of the index.\<close>

definition GetNodesByType :: "RepositoryGraph \<Rightarrow> NodeType \<Rightarrow> GraphNode list" where
  "GetNodesByType g t = List.map_filter (GetNode g) (NodesByType g t)"

text \<open>The index updates that \<open>AddNode\<close> and \<open>BuildIndexes\<close> share.\<close>

definition indexNode :: "GraphNode \<Rightarrow> RepositoryGraph \<Rightarrow> RepositoryGraph" where
  "indexNode node g =
     g \<lparr> NodesByType := (NodesByType g)(Type node := NodesByType g (Type node) @ [ID node]),
         NodesByLevel := (NodesByLevel g)(Level node := NodesByLevel g (Level node) @ [ID node]),
         NodesByPath := (NodesByPath g)(GetPathString node \<mapsto> ID node),
         NodesByTag := foldl (\<lambda>m tag. m(tag := m tag @ [ID node])) (NodesByTag g) (Tags node),
         AllRepositories :=
           (if Type node = NodeTypeRepository then (AllRepositories g)(Name node \<mapsto> ID node)
            else AllRepositories g),
         AllGroups :=
           (if Type node = NodeTypeGroup then (AllGroups g)(Name node \<mapsto> ID node)
            else AllGroups g) \<rparr>"

definition AddNode :: "GraphNode \<Rightarrow> RepositoryGraph \<Rightarrow> error + RepositoryGraph" where
  "AddNode node g =
     (if GetNode g (ID node) \<noteq> None then Inl (NodeExists (ID node))
      else Inr (indexNode node (g \<lparr> Nodes := Nodes g @ [(ID node, cachePath node)] \<rparr>)))"

definition indexRelationship :: "Relationship \<Rightarrow> RepositoryGraph \<Rightarrow> RepositoryGraph" where
  "indexRelationship rel g =
     g \<lparr> RelationsByType := (RelationsByType g)(relType rel := RelationsByType g (relType rel) @ [relID rel]),
         RelationsByFrom := (RelationsByFrom g)(FromID rel := RelationsByFrom g (FromID rel) @ [relID rel]),
         RelationsByTo := (RelationsByTo g)(ToID rel := RelationsByTo g (ToID rel) @ [relID rel]) \<rparr>"

definition AddRelationship :: "Relationship \<Rightarrow> RepositoryGraph \<Rightarrow> error + RepositoryGraph" where
  "AddRelationship rel g =
     (if map_of (Relationships g) (relID rel) \<noteq> None then Inl (RelationshipExists (relID rel))
      else Inr (indexRelationship rel (g \<lparr> Relationships := Relationships g @ [(relID rel, rel)] \<rparr>)))"

text \<open>
  \<open>BuildIndexes\<close> clears every index and ranges over the two primary maps. The arguments
  \<open>nodeOrder\<close> and \<open>relOrder\<close> are the keys in the order in which the runtime yields them.
\<close>

definition clearIndexes :: "RepositoryGraph \<Rightarrow> RepositoryGraph" where
  "clearIndexes g =
     g \<lparr> NodesByType := (\<lambda>_. []), NodesByLevel := (\<lambda>_. []), NodesByPath := (\<lambda>_. None),
         NodesByTag := (\<lambda>_. []), RelationsByType := (\<lambda>_. []), RelationsByFrom := (\<lambda>_. []),
         RelationsByTo := (\<lambda>_. []), AllRepositories := (\<lambda>_. None), AllGroups := (\<lambda>_. None) \<rparr>"

fun rebuildNodes :: "string list \<Rightarrow> RepositoryGraph \<Rightarrow> RepositoryGraph" where
  "rebuildNodes [] g = g"
| "rebuildNodes (i # rest) g =
     (case GetNode g i of
        None \<Rightarrow> rebuildNodes rest g
      | Some node \<Rightarrow>
          rebuildNodes rest
            (indexNode node (g \<lparr> Nodes := AList.update i (cachePath node) (Nodes g) \<rparr>)))"

fun rebuildRelationships :: "string list \<Rightarrow> RepositoryGraph \<Rightarrow> RepositoryGraph" where
  "rebuildRelationships [] g = g"
| "rebuildRelationships (i # rest) g =
     (case map_of (Relationships g) i of
        None \<Rightarrow> rebuildRelationships rest g
      | Some rel \<Rightarrow> rebuildRelationships rest (indexRelationship rel g))"

definition BuildIndexes :: "string list \<Rightarrow> string list \<Rightarrow> RepositoryGraph \<Rightarrow> RepositoryGraph" where
  "BuildIndexes nodeOrder relOrder g =
     rebuildRelationships relOrder (rebuildNodes nodeOrder (clearIndexes g))"

text \<open>
  \<open>ValidateGraph\<close>. The depth-first search follows \<open>Children\<close>; the fuel bounds the depth
  of the recursion, and \<open>None\<close> is a search that did not finish within it.
\<close>

fun checkEndpoints :: "RepositoryGraph \<Rightarrow> string list \<Rightarrow> error option" where
  "checkEndpoints g [] = None"
| "checkEndpoints g (i # rest) =
     (case map_of (Relationships g) i of
        None \<Rightarrow> checkEndpoints g rest
      | Some rel \<Rightarrow>
          if GetNode g (FromID rel) = None then Some (MissingFromNode (relID rel) (FromID rel))
          else if GetNode g (ToID rel) = None then Some (MissingToNode (relID rel) (ToID rel))
          else checkEndpoints g rest)"

type_synonym marks = "(string \<Rightarrow> bool) \<times> (string \<Rightarrow> bool)"

fun checkCycles :: "nat \<Rightarrow> RepositoryGraph \<Rightarrow> string \<Rightarrow> marks \<Rightarrow> (error + marks) option"
  and checkChildren :: "nat \<Rightarrow> RepositoryGraph \<Rightarrow> string list \<Rightarrow> marks \<Rightarrow> (error + marks) option"
where
  "checkCycles 0 g i m = None"
| "checkCycles (Suc k) g i (visited, path) =
     (if path i then Some (Inl (CycleDetected i))
      else if visited i then Some (Inr (visited, path))
      else
        (case checkChildren k g (case GetNode g i of None \<Rightarrow> [] | Some node \<Rightarrow> Children node)
                (visited(i := True), path(i := True)) of
           None \<Rightarrow> None
         | Some (Inl e) \<Rightarrow> Some (Inl e)
         | Some (Inr (visited', path')) \<Rightarrow> Some (Inr (visited', path'(i := False)))))"
| "checkChildren k g [] m = Some (Inr m)"
| "checkChildren k g (c # rest) m =
     (case checkCycles k g c m of
        None \<Rightarrow> None
      | Some (Inl e) \<Rightarrow> Some (Inl e)
      | Some (Inr m') \<Rightarrow> checkChildren k g rest m')"

fun checkAllCycles :: "nat \<Rightarrow> RepositoryGraph \<Rightarrow> string list \<Rightarrow> (string \<Rightarrow> bool) \<Rightarrow> error option option" where
  "checkAllCycles k g [] visited = Some None"
| "checkAllCycles k g (i # rest) visited =
     (if visited i then checkAllCycles k g rest visited
      else
        (case checkCycles k g i (visited, (\<lambda>_. False)) of
           None \<Rightarrow> None
         | Some (Inl e) \<Rightarrow> Some (Some e)
         | Some (Inr (visited', path')) \<Rightarrow> checkAllCycles k g rest visited'))"

text \<open>\<open>Some None\<close>: the graph is valid; \<open>Some (Some e)\<close>: the first violation found.\<close>

definition ValidateGraph :: "nat \<Rightarrow> string list \<Rightarrow> string list \<Rightarrow> RepositoryGraph \<Rightarrow> error option option" where
  "ValidateGraph k nodeOrder relOrder g =
     (case checkEndpoints g relOrder of
        Some e \<Rightarrow> Some (Some e)
      | None \<Rightarrow> checkAllCycles k g nodeOrder (\<lambda>_. False))"


section \<open>The graph builder (pkg/graph/builder.go)\<close>

text \<open>
  What the builder takes from outside the repository: the path functions of
  \<open>path/filepath\<close>, the reading and parsing of a configuration file, the SHA-256 digest in
  hexadecimal, and the order in which the runtime ranges over the keys of a map.
  Paths use \<open>/\<close>, so \<open>filepath.ToSlash\<close> is the identity.
\<close>

record Env =
  fileAbs :: "string \<Rightarrow> string option"
  fileDir :: "string \<Rightarrow> string"
  fileIsAbs :: "string \<Rightarrow> bool"
  fileJoin :: "string \<Rightarrow> string \<Rightarrow> string"
  loadConfig :: "string \<Rightarrow> Config option"
  sha256hex :: "string \<Rightarrow> string"
  rangeKeys :: "string list \<Rightarrow> string list"

record GraphBuilder =
  visited :: "string \<Rightarrow> bool"

definition NewGraphBuilder :: GraphBuilder where
  "NewGraphBuilder = \<lparr> visited = (\<lambda>_. False) \<rparr>"

definition extractHierarchyPath :: "string \<Rightarrow> string list" where
  "extractHierarchyPath configPath =
     (let segments = Split configPath CHR ''/'' in
      if ''configs'' \<notin> set segments then []
      else
        let remaining = tl (dropWhile (\<lambda>seg. seg \<noteq> ''configs'') segments) in
        if remaining \<noteq> [] \<and> HasSuffix (last remaining) ''.yaml'' then butlast remaining
        else remaining)"

text \<open>The parent node is a parameter of \<open>createConfigNode\<close> in the source, and is not used.\<close>

definition createConfigNode :: "Env \<Rightarrow> string \<Rightarrow> Config \<Rightarrow> GraphNode" where
  "createConfigNode env configPath config =
     (let nodeID = ''config_'' @ take 8 (sha256hex env configPath);
          hierarchyPath = extractHierarchyPath configPath;
          nodeName = (if hierarchyPath \<noteq> [] then last hierarchyPath else ''root'')
      in (MarkAsExplicit nodeID (NewGraphNode nodeID NodeTypeConfig nodeName))
           \<lparr> ConfigData := Some config,
             Path := (if hierarchyPath \<noteq> [] then butlast hierarchyPath else []) \<rparr>)"

text \<open>\<open>parentNode.AddChild(configNode)\<close> on the store: the two nodes are replaced by their
  new states.\<close>

definition attachChild :: "string \<Rightarrow> GraphNode \<Rightarrow> GraphNode \<Rightarrow> RepositoryGraph \<Rightarrow> RepositoryGraph" where
  "attachChild parentID parentNode child g =
     (let (parentNode', child') = AddChild parentNode child in
      g \<lparr> Nodes := AList.update (ID child) child' (AList.update parentID parentNode' (Nodes g)) \<rparr>)"

text \<open>
  \<open>buildConfigHierarchy\<close>. The recursion follows the includes of the files, which need not
  end; the first argument is fuel and \<open>None\<close> a recursion deeper than the fuel. The deferred
  reset of \<open>visited\<close> is applied on the successful return; on an error the build is over and
  only the error is returned.
\<close>

fun buildConfigHierarchy ::
    "nat \<Rightarrow> Env \<Rightarrow> string \<Rightarrow> string \<Rightarrow> GraphBuilder \<times> RepositoryGraph
       \<Rightarrow> (error + GraphBuilder \<times> RepositoryGraph) option"
  and buildIncludes ::
    "nat \<Rightarrow> Env \<Rightarrow> string \<Rightarrow> string list \<Rightarrow> string \<Rightarrow> GraphBuilder \<times> RepositoryGraph
       \<Rightarrow> (error + GraphBuilder \<times> RepositoryGraph) option"
where
  "buildConfigHierarchy 0 env configPath parentID s = None"
| "buildConfigHierarchy (Suc k) env configPath parentID (b, g) =
     (case fileAbs env configPath of
        None \<Rightarrow> Some (Inl (Wrap (''failed to resolve path '' @ configPath) AbsError))
      | Some absPath \<Rightarrow>
          if visited b absPath then Some (Inl (CircularDependency absPath))
          else
            (case loadConfig env absPath of
               None \<Rightarrow> Some (Inl (Wrap (''failed to load config '' @ absPath) LoadError))
             | Some config \<Rightarrow>
                 (let configNode = createConfigNode env absPath config in
                  case AddNode configNode g of
                    Inl e \<Rightarrow> Some (Inl (Wrap ''failed to add config node'' e))
                  | Inr g1 \<Rightarrow>
                      (case GetNode g1 parentID of
                         None \<Rightarrow> Some (Inl (NilNode parentID))
                       | Some parentNode \<Rightarrow>
                           (case AddRelationship
                                   (NewRelationship (''pc_'' @ ID parentNode @ ''_'' @ ID configNode)
                                      parentNode configNode RelationParentChild)
                                   (attachChild parentID parentNode (cachePath configNode) g1) of
                              Inl e \<Rightarrow> Some (Inl (Wrap ''failed to add parent-child relationship'' e))
                            | Inr g3 \<Rightarrow>
                                (case buildIncludes k env (fileDir env absPath) (Includes config)
                                        (ID configNode)
                                        (b \<lparr> visited := (visited b)(absPath := True) \<rparr>, g3) of
                                   None \<Rightarrow> None
                                 | Some (Inl e) \<Rightarrow> Some (Inl e)
                                 | Some (Inr (b', g4)) \<Rightarrow>
                                     Some (Inr (b' \<lparr> visited := (visited b')(absPath := False) \<rparr>, g4))))))))"
| "buildIncludes k env configDir [] configID s = Some (Inr s)"
| "buildIncludes k env configDir (include # rest) configID s =
     (let includePath = (if fileIsAbs env include then include else fileJoin env configDir include) in
      case buildConfigHierarchy k env includePath configID s of
        None \<Rightarrow> None
      | Some (Inl e) \<Rightarrow> Some (Inl (Wrap (''failed to build included hierarchy '' @ includePath) e))
      | Some (Inr s') \<Rightarrow> buildIncludes k env configDir rest configID s')"

subsection \<open>Repositories\<close>

definition createRepositoryNode :: "Repository \<Rightarrow> GraphNode \<Rightarrow> GraphNode" where
  "createRepositoryNode repo configNode =
     (let p = Path configNode @ (if Name configNode \<noteq> ''root'' then [Name configNode] else []);
          fp = Join p ''/''
      in MarkAsExplicit (ID configNode)
           ((NewGraphNode (''repo_'' @ repoName repo) NodeTypeRepository (repoName repo))
              \<lparr> RepositoryData := Some repo, Path := p,
                FullPath := (if fp = [] then ''root'' else fp), Level := int (length p) \<rparr>))"

text \<open>The loop over the repository records of one configuration node; the loop variable is
  a fresh variable for each record (the semantics of Go 1.22 and later).\<close>

fun addRepositories :: "GraphNode \<Rightarrow> Repository list \<Rightarrow> RepositoryGraph \<Rightarrow> error + RepositoryGraph" where
  "addRepositories configNode [] g = Inr g"
| "addRepositories configNode (repo # rest) g =
     (let repoNode = createRepositoryNode repo configNode in
      case AddNode repoNode g of
        Inl e \<Rightarrow> Inl (Wrap (''failed to add repository node '' @ ID repoNode) e)
      | Inr g1 \<Rightarrow>
          (case AddRelationship
                  (NewRelationship (''def_'' @ ID configNode @ ''_'' @ ID repoNode)
                     configNode repoNode RelationDefines) g1 of
             Inl e \<Rightarrow> Inl (Wrap ''failed to add defines relationship'' e)
           | Inr g2 \<Rightarrow> addRepositories configNode rest g2))"

fun repositoriesOfConfigs :: "GraphNode list \<Rightarrow> RepositoryGraph \<Rightarrow> error + RepositoryGraph" where
  "repositoriesOfConfigs [] g = Inr g"
| "repositoriesOfConfigs (configNode # rest) g =
     (case ConfigData configNode of
        None \<Rightarrow> repositoriesOfConfigs rest g
      | Some config \<Rightarrow>
          (case addRepositories configNode (Repositories config) g of
             Inl e \<Rightarrow> Inl e
           | Inr g' \<Rightarrow> repositoriesOfConfigs rest g'))"

definition processRepositories :: "RepositoryGraph \<Rightarrow> error + RepositoryGraph" where
  "processRepositories g = repositoriesOfConfigs (GetNodesByType g NodeTypeConfig) g"

subsection \<open>Groups\<close>

definition calculateInheritedRepos :: "GraphNode \<Rightarrow> RepositoryGraph \<Rightarrow> string list" where
  "calculateInheritedRepos scopeNode g =
     sort (map Name (filter (\<lambda>repoNode. IsInScope repoNode scopeNode)
                            (GetNodesByType g NodeTypeRepository)))"

definition createGroupNode :: "string \<Rightarrow> string list \<Rightarrow> GraphNode \<Rightarrow> RepositoryGraph \<Rightarrow> GraphNode" where
  "createGroupNode gname repos configNode g =
     (let groupID = ''group_'' @ ReplaceAll (GetPathString configNode) CHR ''/'' CHR ''_'' @ ''_'' @ gname;
          p = Path configNode @ (if Name configNode \<noteq> ''root'' then [Name configNode] else []);
          fp = Join p ''/'';
          groupNode = (NewGraphNode groupID NodeTypeGroup gname)
                        \<lparr> Path := p, FullPath := (if fp = [] then ''root'' else fp),
                          Level := int (length p) \<rparr>;
          groupDef = \<lparr> groupName = gname, ExplicitRepos = repos,
                       InheritedRepos = (if repos = [] then calculateInheritedRepos groupNode g else []),
                       IsEmpty = (repos = []) \<rparr>
      in (MarkAsDerived (ID configNode) (groupNode \<lparr> GroupData := Some groupDef \<rparr>))
           \<lparr> Tags := Tags groupNode @ (if repos = [] then [''inherited'', ''derived'']
                                        else [''explicit'', ''derived'']) \<rparr>)"

definition lookupRepository :: "RepositoryGraph \<Rightarrow> string \<Rightarrow> GraphNode option" where
  "lookupRepository g rname =
     (case AllRepositories g rname of None \<Rightarrow> None | Some i \<Rightarrow> GetNode g i)"

fun addIncludes :: "GraphNode \<Rightarrow> string list \<Rightarrow> RepositoryGraph \<Rightarrow> error + RepositoryGraph" where
  "addIncludes groupNode [] g = Inr g"
| "addIncludes groupNode (rname # rest) g =
     (case lookupRepository g rname of
        None \<Rightarrow> addIncludes groupNode rest g
      | Some repoNode \<Rightarrow>
          (case AddRelationship
                  (NewRelationship (''inc_'' @ ID groupNode @ ''_'' @ ID repoNode)
                     groupNode repoNode RelationIncludes) g of
             Inl e \<Rightarrow> Inl (Wrap ''failed to add includes relationship'' e)
           | Inr g' \<Rightarrow> addIncludes groupNode rest g'))"

fun addGroups :: "GraphNode \<Rightarrow> (string \<times> string list) list \<Rightarrow> RepositoryGraph \<Rightarrow> error + RepositoryGraph" where
  "addGroups configNode [] g = Inr g"
| "addGroups configNode ((gname, repos) # rest) g =
     (let groupNode = createGroupNode gname repos configNode g in
      case AddNode groupNode g of
        Inl e \<Rightarrow> Inl (Wrap (''failed to add group node '' @ ID groupNode) e)
      | Inr g1 \<Rightarrow>
          (case AddRelationship
                  (NewRelationship (''def_'' @ ID configNode @ ''_'' @ ID groupNode)
                     configNode groupNode RelationDefines) g1 of
             Inl e \<Rightarrow> Inl (Wrap ''failed to add defines relationship'' e)
           | Inr g2 \<Rightarrow>
               (case GroupData groupNode of
                  None \<Rightarrow> Inl (NilNode (ID groupNode))
                | Some gd \<Rightarrow>
                    (case addIncludes groupNode (ExplicitRepos gd @ InheritedRepos gd) g2 of
                       Inl e \<Rightarrow> Inl e
                     | Inr g3 \<Rightarrow> addGroups configNode rest g3))))"

fun groupsOfConfigs :: "GraphNode list \<Rightarrow> RepositoryGraph \<Rightarrow> error + RepositoryGraph" where
  "groupsOfConfigs [] g = Inr g"
| "groupsOfConfigs (configNode # rest) g =
     (case ConfigData configNode of
        None \<Rightarrow> groupsOfConfigs rest g
      | Some config \<Rightarrow>
          (case addGroups configNode (Groups config) g of
             Inl e \<Rightarrow> Inl e
           | Inr g' \<Rightarrow> groupsOfConfigs rest g'))"

definition processGroups :: "RepositoryGraph \<Rightarrow> error + RepositoryGraph" where
  "processGroups g = groupsOfConfigs (GetNodesByType g NodeTypeConfig) g"


subsection \<open>Tags and labels\<close>

text \<open>The formatting verb \<open>%v\<close> on a tag value.\<close>

function showNat :: "nat \<Rightarrow> string" where
  "showNat n =
     (if n < 10 then [char_of (48 + n)] else showNat (n div 10) @ [char_of (48 + n mod 10)])"
  by pat_completeness auto
termination
  by (relation "measure id") auto

declare showNat.simps [simp del]

fun fmtValue :: "TagValue \<Rightarrow> string" where
  "fmtValue (VString s) = s"
| "fmtValue (VBool b) = (if b then ''true'' else ''false'')"
| "fmtValue (VInt i) = (if i < 0 then ''-'' @ showNat (nat (- i)) else showNat (nat i))"

type_synonym created = "string \<Rightarrow> GraphNode option"

definition createOrGetTagNode ::
    "string \<Rightarrow> TagValue \<Rightarrow> string \<Rightarrow> GraphNode \<Rightarrow> created \<Rightarrow> GraphNode \<times> created" where
  "createOrGetTagNode tname tvalue scope sourceNode createdTags =
     (let tagID = ''tag_'' @ tname @ ''_'' @ fmtValue tvalue in
      case createdTags tagID of
        Some existing \<Rightarrow> (existing, createdTags)
      | None \<Rightarrow>
          (let tagNode = MarkAsExplicit (ID sourceNode)
                 ((NewGraphNode tagID NodeTypeTag tname)
                    \<lparr> TagData := Some \<lparr> tagName = tname, tagValue = tvalue, tagScope = scope,
                                        tagSourceType = ''explicit'' \<rparr> \<rparr>)
           in (tagNode, createdTags(tagID \<mapsto> tagNode))))"

definition createOrGetLabelNode ::
    "string \<Rightarrow> string \<Rightarrow> GraphNode \<Rightarrow> created \<Rightarrow> GraphNode \<times> created" where
  "createOrGetLabelNode lname scope sourceNode createdLabels =
     (let labelID = ''label_'' @ lname in
      case createdLabels labelID of
        Some existing \<Rightarrow> (existing, createdLabels)
      | None \<Rightarrow>
          (let labelNode = MarkAsExplicit (ID sourceNode)
                 ((NewGraphNode labelID NodeTypeLabel lname)
                    \<lparr> LabelData := Some \<lparr> labelName = lname, labelScope = scope,
                                          labelSourceType = ''explicit'' \<rparr> \<rparr>)
           in (labelNode, createdLabels(labelID \<mapsto> labelNode))))"

definition createTagRelationship :: "RepositoryGraph \<Rightarrow> GraphNode \<Rightarrow> GraphNode \<Rightarrow> error + RepositoryGraph" where
  "createTagRelationship g fromNode tagNode =
     AddRelationship
       (NewRelationship (''tagged_'' @ ID fromNode @ ''_'' @ ID tagNode) fromNode tagNode
          RelationTaggedWith) g"

definition createLabelRelationship :: "RepositoryGraph \<Rightarrow> GraphNode \<Rightarrow> GraphNode \<Rightarrow> error + RepositoryGraph" where
  "createLabelRelationship g fromNode labelNode =
     AddRelationship
       (NewRelationship (''labeled_'' @ ID fromNode @ ''_'' @ ID labelNode) fromNode labelNode
          RelationLabeledWith) g"

text \<open>
  \<open>processTagsAndLabels\<close> calls \<open>createTagRelationship\<close> and \<open>createLabelRelationship\<close> as
  statements: the error they return is dropped and the loop goes on with the graph as the
  call left it, which for a failed insertion is the graph before the call.
\<close>

definition dropError :: "error + RepositoryGraph \<Rightarrow> RepositoryGraph \<Rightarrow> RepositoryGraph" where
  "dropError r g = (case r of Inl e \<Rightarrow> g | Inr g' \<Rightarrow> g')"

fun addTags ::
    "string \<Rightarrow> GraphNode \<Rightarrow> (string \<times> TagValue) list \<Rightarrow> created \<times> RepositoryGraph
       \<Rightarrow> error + created \<times> RepositoryGraph" where
  "addTags scope fromNode [] s = Inr s"
| "addTags scope fromNode ((tname, tvalue) # rest) (createdTags, g) =
     (let (tagNode, createdTags') = createOrGetTagNode tname tvalue scope fromNode createdTags in
      case (if GetNode g (ID tagNode) = None then AddNode tagNode g else Inr g) of
        Inl e \<Rightarrow> Inl (Wrap (''failed to add '' @ scope @ '' tag node '' @ ID tagNode) e)
      | Inr g1 \<Rightarrow>
          addTags scope fromNode rest
            (createdTags', dropError (createTagRelationship g1 fromNode tagNode) g1))"

fun addLabels ::
    "string \<Rightarrow> GraphNode \<Rightarrow> string list \<Rightarrow> created \<times> RepositoryGraph
       \<Rightarrow> error + created \<times> RepositoryGraph" where
  "addLabels scope fromNode [] s = Inr s"
| "addLabels scope fromNode (lname # rest) (createdLabels, g) =
     (let (labelNode, createdLabels') = createOrGetLabelNode lname scope fromNode createdLabels in
      case (if GetNode g (ID labelNode) = None then AddNode labelNode g else Inr g) of
        Inl e \<Rightarrow> Inl (Wrap (''failed to add '' @ scope @ '' label node '' @ ID labelNode) e)
      | Inr g1 \<Rightarrow>
          addLabels scope fromNode rest
            (createdLabels', dropError (createLabelRelationship g1 fromNode labelNode) g1))"

fun tagsOfConfigs ::
    "GraphNode list \<Rightarrow> created \<times> created \<times> RepositoryGraph
       \<Rightarrow> error + created \<times> created \<times> RepositoryGraph" where
  "tagsOfConfigs [] s = Inr s"
| "tagsOfConfigs (configNode # rest) (createdTags, createdLabels, g) =
     (case ConfigData configNode of
        None \<Rightarrow> tagsOfConfigs rest (createdTags, createdLabels, g)
      | Some config \<Rightarrow>
          (case addTags ''global'' configNode (globalTags (Global config)) (createdTags, g) of
             Inl e \<Rightarrow> Inl e
           | Inr (createdTags', g1) \<Rightarrow>
               (case addLabels ''global'' configNode (globalLabels (Global config)) (createdLabels, g1) of
                  Inl e \<Rightarrow> Inl e
                | Inr (createdLabels', g2) \<Rightarrow> tagsOfConfigs rest (createdTags', createdLabels', g2))))"

fun tagsOfRepositories ::
    "GraphNode list \<Rightarrow> created \<times> created \<times> RepositoryGraph
       \<Rightarrow> error + created \<times> created \<times> RepositoryGraph" where
  "tagsOfRepositories [] s = Inr s"
| "tagsOfRepositories (repoNode # rest) (createdTags, createdLabels, g) =
     (case RepositoryData repoNode of
        None \<Rightarrow> tagsOfRepositories rest (createdTags, createdLabels, g)
      | Some repo \<Rightarrow>
          (case addTags ''repository'' repoNode (repoTags repo) (createdTags, g) of
             Inl e \<Rightarrow> Inl e
           | Inr (createdTags', g1) \<Rightarrow>
               (case addLabels ''repository'' repoNode (repoLabels repo) (createdLabels, g1) of
                  Inl e \<Rightarrow> Inl e
                | Inr (createdLabels', g2) \<Rightarrow>
                    tagsOfRepositories rest (createdTags', createdLabels', g2))))"

definition processTagsAndLabels :: "RepositoryGraph \<Rightarrow> error + RepositoryGraph" where
  "processTagsAndLabels g =
     (case tagsOfConfigs (GetNodesByType g NodeTypeConfig) ((\<lambda>_. None), (\<lambda>_. None), g) of
        Inl e \<Rightarrow> Inl e
      | Inr (createdTags, createdLabels, g1) \<Rightarrow>
          (case tagsOfRepositories (GetNodesByType g1 NodeTypeRepository)
                  (createdTags, createdLabels, g1) of
             Inl e \<Rightarrow> Inl e
           | Inr (createdTags', createdLabels', g2) \<Rightarrow> Inr g2))"

subsection \<open>The build\<close>

text \<open>The fuel bounds the depth of the include recursion and of the search in
  \<open>ValidateGraph\<close>.\<close>

definition rootNode :: GraphNode where
  "rootNode = (NewGraphNode ''root'' NodeTypeRoot ''root'') \<lparr> Level := 0, Path := [], FullPath := ''root'' \<rparr>"

definition finalize :: "nat \<Rightarrow> Env \<Rightarrow> RepositoryGraph \<Rightarrow> (error + RepositoryGraph) option" where
  "finalize k env g =
     (let g' = BuildIndexes (rangeKeys env (map fst (Nodes g)))
                 (rangeKeys env (map fst (Relationships g))) g
      in case ValidateGraph k (rangeKeys env (map fst (Nodes g')))
                (rangeKeys env (map fst (Relationships g'))) g' of
           None \<Rightarrow> None
         | Some (Some e) \<Rightarrow> Some (Inl (Wrap ''graph validation failed'' e))
         | Some None \<Rightarrow> Some (Inr g'))"

definition BuildGraph :: "nat \<Rightarrow> Env \<Rightarrow> GraphBuilder \<Rightarrow> string \<Rightarrow> (error + RepositoryGraph) option" where
  "BuildGraph k env b rootPath =
     (case AddNode rootNode NewRepositoryGraph of
        Inl e \<Rightarrow> Some (Inl (Wrap ''failed to add root node'' e))
      | Inr g0 \<Rightarrow>
          (case buildConfigHierarchy k env rootPath (ID rootNode) (b, g0 \<lparr> Root := Some (ID rootNode) \<rparr>) of
             None \<Rightarrow> None
           | Some (Inl e) \<Rightarrow> Some (Inl (Wrap ''failed to build configuration hierarchy'' e))
           | Some (Inr (b', g1)) \<Rightarrow>
               (case processRepositories g1 of
                  Inl e \<Rightarrow> Some (Inl (Wrap ''failed to process repositories'' e))
                | Inr g2 \<Rightarrow>
                    (case processGroups g2 of
                       Inl e \<Rightarrow> Some (Inl (Wrap ''failed to process groups'' e))
                     | Inr g3 \<Rightarrow>
                         (case processTagsAndLabels g3 of
                            Inl e \<Rightarrow> Some (Inl (Wrap ''failed to process tags and labels'' e))
                          | Inr g4 \<Rightarrow> finalize k env g4)))))"

section \<open>Queries and the configuration projection\<close>





definition GetRepositoriesInScope :: "RepositoryGraph \<Rightarrow> GraphNode \<Rightarrow> GraphNode list" where
  "GetRepositoriesInScope g scopeNode =
     filter (\<lambda>repoNode. IsInScope repoNode scopeNode) (GetNodesByType g NodeTypeRepository)"

text \<open>The duplicate removal of \<open>GetGroupsForDisplay\<close>: the first occurrence is kept.\<close>

fun uniqueRepos :: "string list \<Rightarrow> string list \<Rightarrow> string list" where
  "uniqueRepos seen [] = []"
| "uniqueRepos seen (r # rest) =
     (if r \<in> set seen then uniqueRepos seen rest else r # uniqueRepos (r # seen) rest)"

definition displayName :: "GraphNode list \<Rightarrow> GraphNode \<Rightarrow> string" where
  "displayName groupNodes groupNode =
     (if length (filter (\<lambda>n. Name n = Name groupNode) groupNodes) > 1
         \<and> GetPathString groupNode \<noteq> ''root''
      then
        (let pathParts = Split (GetPathString groupNode) CHR ''/'' in
         if pathParts \<noteq> [] \<and> last pathParts \<noteq> ''root''
         then last pathParts @ ''-'' @ Name groupNode
         else Name groupNode)
      else Name groupNode)"

fun displayGroups ::
    "GraphNode list \<Rightarrow> GraphNode list \<Rightarrow> (string \<times> string list) list \<Rightarrow> (string \<times> string list) list" where
  "displayGroups groupNodes [] result = result"
| "displayGroups groupNodes (groupNode # rest) result =
     (case GroupData groupNode of
        None \<Rightarrow> displayGroups groupNodes rest result
      | Some gd \<Rightarrow>
          (let unique = sort (uniqueRepos [] (ExplicitRepos gd @ InheritedRepos gd)) in
           displayGroups groupNodes rest
             (if unique \<noteq> [] then AList.update (displayName groupNodes groupNode) unique result
              else result)))"

definition GetGroupsForDisplay :: "RepositoryGraph \<Rightarrow> (string \<times> string list) list" where
  "GetGroupsForDisplay g =
     displayGroups (GetNodesByType g NodeTypeGroup) (GetNodesByType g NodeTypeGroup) []"

text \<open>
  \<open>GetMergedConfig\<close>. The loop over the configuration nodes updates the global settings
  from the nodes at level 1 only. The merge of the template maps is left out with the
  templates. \<open>sort.Slice\<close> is not stable; the model's sort is, which differs only for
  repositories of equal names.
\<close>

definition mergeGlobal :: "GlobalConfig \<Rightarrow> GraphNode \<Rightarrow> GlobalConfig" where
  "mergeGlobal acc configNode =
     (case ConfigData configNode of
        None \<Rightarrow> acc
      | Some c \<Rightarrow>
          if Level configNode = 1 then
            acc \<lparr> BasePath := (if BasePath (Global c) \<noteq> [] then BasePath (Global c) else BasePath acc),
                  Workers := (if Workers (Global c) > 0 then Workers (Global c) else Workers acc),
                  Timeout := (if Timeout (Global c) > 0 then Timeout (Global c) else Timeout acc),
                  Environment := foldl (\<lambda>m (k, v). AList.update k v m) (Environment acc)
                                   (Environment (Global c)) \<rparr>
          else acc)"

definition defaultGlobal :: GlobalConfig where
  "defaultGlobal =
     \<lparr> BasePath = [], Workers = 8, Timeout = 300, Environment = [], globalTags = [],
       globalLabels = [] \<rparr>"

definition GetMergedConfig :: "RepositoryGraph \<Rightarrow> Config" where
  "GetMergedConfig g =
     \<lparr> Includes = [],
       Global = foldl mergeGlobal defaultGlobal (GetNodesByType g NodeTypeConfig),
       Repositories = sort_key repoName
                        (List.map_filter RepositoryData (GetNodesByType g NodeTypeRepository)),
       Groups = GetGroupsForDisplay g \<rparr>"


section \<open>Vocabulary of the properties\<close>



text \<open>
  \<open>repositoriesIndexed g\<close>: the type index lists every repository node once, and each is
  stored under the ID \<open>repo_\<close> followed by its name.
\<close>

definition repositoriesIndexed :: "RepositoryGraph \<Rightarrow> bool" where
  "repositoriesIndexed g =
     (distinct (NodesByType g NodeTypeRepository)
      \<and> (\<forall>i \<in> set (NodesByType g NodeTypeRepository).
            case GetNode g i of None \<Rightarrow> False | Some n \<Rightarrow> i = ''repo_'' @ Name n))"

text \<open>The global settings of the configuration nodes at level 1, in the order of the type
  index.\<close>

definition levelOneGlobals :: "RepositoryGraph \<Rightarrow> GlobalConfig list" where
  "levelOneGlobals g =
     map Global (List.map_filter ConfigData
                   (filter (\<lambda>n. Level n = 1) (GetNodesByType g NodeTypeConfig)))"

text \<open>
  \<open>displayEntries g\<close>: for every group node with a group definition and at least one
  member, in the order of the type index, its display name and the sorted list of its
  members, explicit or inherited, each once.
\<close>

definition displayEntries :: "RepositoryGraph \<Rightarrow> (string \<times> string list) list" where
  "displayEntries g =
     List.map_filter
       (\<lambda>n. case GroupData n of
              None \<Rightarrow> None
            | Some gd \<Rightarrow>
                if ExplicitRepos gd @ InheritedRepos gd = [] then None
                else Some (displayName (GetNodesByType g NodeTypeGroup) n,
                           sorted_list_of_set (set (ExplicitRepos gd) \<union> set (InheritedRepos gd))))
       (GetNodesByType g NodeTypeGroup)"

text \<open>
  The hierarchy expansion as the specification words it, with the recursion stack
  explicit: the paths of the calls that have not returned yet, the innermost first. It
  fails with the circular-dependency error when the resolved path is on the stack, and does
  everything else as \<open>buildConfigHierarchy\<close> does.
\<close>

fun expandOnStack ::
    "nat \<Rightarrow> Env \<Rightarrow> string \<Rightarrow> string \<Rightarrow> string list \<Rightarrow> RepositoryGraph
       \<Rightarrow> (error + RepositoryGraph) option"
  and expandIncludesOnStack ::
    "nat \<Rightarrow> Env \<Rightarrow> string \<Rightarrow> string list \<Rightarrow> string \<Rightarrow> string list \<Rightarrow> RepositoryGraph
       \<Rightarrow> (error + RepositoryGraph) option"
where
  "expandOnStack 0 env configPath parentID stack g = None"
| "expandOnStack (Suc k) env configPath parentID stack g =
     (case fileAbs env configPath of
        None \<Rightarrow> Some (Inl (Wrap (''failed to resolve path '' @ configPath) AbsError))
      | Some absPath \<Rightarrow>
          if absPath \<in> set stack then Some (Inl (CircularDependency absPath))
          else
            (case loadConfig env absPath of
               None \<Rightarrow> Some (Inl (Wrap (''failed to load config '' @ absPath) LoadError))
             | Some config \<Rightarrow>
                 (let configNode = createConfigNode env absPath config in
                  case AddNode configNode g of
                    Inl e \<Rightarrow> Some (Inl (Wrap ''failed to add config node'' e))
                  | Inr g1 \<Rightarrow>
                      (case GetNode g1 parentID of
                         None \<Rightarrow> Some (Inl (NilNode parentID))
                       | Some parentNode \<Rightarrow>
                           (case AddRelationship
                                   (NewRelationship (''pc_'' @ ID parentNode @ ''_'' @ ID configNode)
                                      parentNode configNode RelationParentChild)
                                   (attachChild parentID parentNode (cachePath configNode) g1) of
                              Inl e \<Rightarrow> Some (Inl (Wrap ''failed to add parent-child relationship'' e))
                            | Inr g3 \<Rightarrow>
                                expandIncludesOnStack k env (fileDir env absPath) (Includes config)
                                  (ID configNode) (absPath # stack) g3)))))"
| "expandIncludesOnStack k env configDir [] configID stack g = Some (Inr g)"
| "expandIncludesOnStack k env configDir (include # rest) configID stack g =
     (let includePath = (if fileIsAbs env include then include else fileJoin env configDir include) in
      case expandOnStack k env includePath configID stack g of
        None \<Rightarrow> None
      | Some (Inl e) \<Rightarrow> Some (Inl (Wrap (''failed to build included hierarchy '' @ includePath) e))
      | Some (Inr g') \<Rightarrow> expandIncludesOnStack k env configDir rest configID stack g')"

section \<open>Example configurations\<close>

text \<open>
  The examples run the build on small sets of files. Paths are absolute and clean, so
  \<open>filepath.Abs\<close> returns them unchanged; the digests are the SHA-256 digests of the paths;
  the runtime is taken to range over a map in insertion order.
\<close>

definition mkRepository :: "string \<Rightarrow> (string \<times> TagValue) list \<Rightarrow> string list \<Rightarrow> Repository" where
  "mkRepository n tags labels =
     \<lparr> repoName = n, repoPath = n, repoTags = tags, repoLabels = labels, repoDisabled = False \<rparr>"

definition emptyGlobal :: GlobalConfig where
  "emptyGlobal =
     \<lparr> BasePath = [], Workers = 0, Timeout = 0, Environment = [], globalTags = [],
       globalLabels = [] \<rparr>"

definition mkConfig :: "string list \<Rightarrow> Repository list \<Rightarrow> (string \<times> string list) list \<Rightarrow> Config" where
  "mkConfig incs repos groups =
     \<lparr> Includes = incs, Global = emptyGlobal, Repositories = repos, Groups = groups \<rparr>"

definition digests :: "(string \<times> string) list" where
  "digests =
     [(''/w/gorepos.yaml'', ''b9680d0983e6b5ce8a39f1cf90c2c9c1ce82820b05518e403d985be600a11750''),
      (''/w/a.yaml'', ''092fc4a22de890855a60ea4c17787961d4148d1d2ab3562f31e9ecf7941a8f1a''),
      (''/w/b.yaml'', ''9a13f30a8a28bd320545f96bf0d5081c68ad4d8bef40a9ed18e78df3092e93ba''),
      (''/w/c.yaml'', ''359d48a107279774003494453546eb591fb089d04ec6f462baeaf8bcb428eb19''),
      (''/w/d.yaml'', ''c75f9d2a7a48ed1e60b46d243cecf15b157b0e683940832b2017ab771d81c267''),
      (''/w/configs/x/x.yaml'', ''2db81986e9a0b55dcb707bcd822a944f2d0b5dbecbfa68f65b457cd9f9e175d0''),
      (''/w/configs/y/y.yaml'', ''794d974d1a02ba2471d29bddc00f8fbad1f20d45e5dcd98c14d45346cae838e7''),
      (''/w/configs/x/backend/b.yaml'', ''6c607625582e52f93573c876c0e1a7c87ecfb7b76e97ae6f9a8e9950d820ff12''),
      (''/w/configs/y/backend/b.yaml'', ''c6a5920ca74bb834956967e070500eca4394a410c004f9f0101546ca3c6619c7''),
      (''/w/configs/backend/b.yaml'', ''1a2d8886c31ab79b3a5a5332dd73d9ed9cc7810fb72b7a628c5a66403d5e1175''),
      (''/w/configs/frontend/f.yaml'', ''d603904b4cd59ac547cb7145b02bf47db7570d31c386955bf8dfc389ce948516''),
      (''/w/configs/team/main.yaml'', ''e04452f8b8b320ecd9067a8f282e9c1ee99969702e032a8004e567394264eef6''),
      (''/w/configs/team/sub/s.yaml'', ''06952d49c344415485a8663b090ea9dc1a90daaf6b6ee3f6841a299fd8de4421''),
      (''/w/configs/sub/s.yaml'', ''86e07b88eb9e4067a6ac8c8d795d9e88265e0db188f2cdc7145ee4111b41c416''),
      (''/w/configs/sub/deep/d.yaml'', ''d4ac07c618419f25be48a914d0d4047ef104ebb4d7de20cee76c4c9ef86c6b3a''),
      (''/w/configs/sub/deep/leaf/l.yaml'', ''7d9b08ead9d68d444a19bd1903ea1b17f0c0e98c8e84b38b8d846638d51e77fa'')]"

definition exampleEnv :: "(string \<times> Config) list \<Rightarrow> Env" where
  "exampleEnv files =
     \<lparr> fileAbs = Some,
       fileDir = (\<lambda>p. Join (butlast (Split p CHR ''/'')) ''/''),
       fileIsAbs = (\<lambda>p. HasPrefix p ''/''),
       fileJoin = (\<lambda>d p. d @ ''/'' @ p),
       loadConfig = map_of files,
       sha256hex = (\<lambda>p. case map_of digests p of Some h \<Rightarrow> h | None \<Rightarrow> replicate 64 CHR ''0''),
       rangeKeys = (\<lambda>ks. ks) \<rparr>"

text \<open>A root file outside any \<open>configs\<close> directory (node name \<open>root\<close>) that includes
  \<open>configs/sub/s.yaml\<close>, which includes \<open>configs/sub/deep/d.yaml\<close>, which includes
  \<open>configs/sub/deep/leaf/l.yaml\<close>; the root file has an empty group \<open>all\<close>.\<close>

definition nestedFiles :: "(string \<times> Config) list" where
  "nestedFiles =
     [(''/w/gorepos.yaml'',
         mkConfig [''configs/sub/s.yaml''] [mkRepository ''api'' [] []] [(''all'', [])]),
      (''/w/configs/sub/s.yaml'',
         mkConfig [''/w/configs/sub/deep/d.yaml''] [mkRepository ''svc'' [] []] []),
      (''/w/configs/sub/deep/d.yaml'',
         mkConfig [''leaf/l.yaml''] [mkRepository ''db'' [] []] []),
      (''/w/configs/sub/deep/leaf/l.yaml'', mkConfig [] [mkRepository ''cache'' [] []] [])]"

text \<open>The scenario of the specification: one file, no includes, the repositories \<open>c\<close>,
  \<open>a\<close>, \<open>b\<close> in this order and the empty group \<open>everything\<close>.\<close>

definition abcFiles :: "(string \<times> Config) list" where
  "abcFiles =
     [(''/w/gorepos.yaml'',
         mkConfig [] [mkRepository ''c'' [] [], mkRepository ''a'' [] [], mkRepository ''b'' [] []]
           [(''everything'', [])])]"

text \<open>A root file \<open>configs/team/main.yaml\<close> (node name \<open>team\<close>) that includes
  \<open>configs/team/sub/s.yaml\<close>; both define a group \<open>all\<close>, with different members.\<close>

definition teamFiles :: "(string \<times> Config) list" where
  "teamFiles =
     [(''/w/configs/team/main.yaml'',
         mkConfig [''sub/s.yaml''] [mkRepository ''core'' [] []] [(''all'', [''core''])]),
      (''/w/configs/team/sub/s.yaml'',
         mkConfig [] [mkRepository ''util'' [] []] [(''all'', [''util''])])]"

text \<open>A graph filled through \<open>AddNode\<close> with three configuration nodes: two at level 1,
  with different settings, and between them one at level 2.\<close>

definition settingsNode :: "string \<Rightarrow> int \<Rightarrow> string \<Rightarrow> int \<Rightarrow> int \<Rightarrow> (string \<times> string) list \<Rightarrow> GraphNode" where
  "settingsNode i lvl base workers tmo envir =
     (NewGraphNode i NodeTypeConfig i)
       \<lparr> Level := lvl,
         ConfigData := Some ((mkConfig [] [] [])
            \<lparr> Global := emptyGlobal \<lparr> BasePath := base, Workers := workers, Timeout := tmo,
                                       Environment := envir \<rparr> \<rparr>) \<rparr>"

definition settingsNodes :: "GraphNode list" where
  "settingsNodes =
     [settingsNode ''config_first'' 1 ''/first'' 2 10 [(''STAGE'', ''one'')],
      settingsNode ''config_deep'' 2 ''/deep'' 16 99 [(''STAGE'', ''deep'')],
      settingsNode ''config_second'' 1 ''/second'' 4 0 [(''STAGE'', ''two'')]]"

fun addNodes :: "GraphNode list \<Rightarrow> RepositoryGraph \<Rightarrow> error + RepositoryGraph" where
  "addNodes [] g = Inr g"
| "addNodes (n # ns) g = (case AddNode n g of Inl e \<Rightarrow> Inl e | Inr g' \<Rightarrow> addNodes ns g')"

text \<open>A root file that includes \<open>configs/x/x.yaml\<close> and \<open>configs/y/y.yaml\<close>, each of
  which includes its own \<open>backend/b.yaml\<close> with a group \<open>all\<close>.\<close>

definition backendFiles :: "(string \<times> Config) list" where
  "backendFiles =
     [(''/w/gorepos.yaml'',
         mkConfig [''configs/x/x.yaml'', ''configs/y/y.yaml''] [mkRepository ''main'' [] []] []),
      (''/w/configs/x/x.yaml'', mkConfig [''backend/b.yaml''] [] []),
      (''/w/configs/y/y.yaml'', mkConfig [''backend/b.yaml''] [] []),
      (''/w/configs/x/backend/b.yaml'',
         mkConfig [] [mkRepository ''xdb'' [] []] [(''all'', [''xdb''])]),
      (''/w/configs/y/backend/b.yaml'',
         mkConfig [] [mkRepository ''ydb'' [] []] [(''all'', [''ydb''])])]"

text \<open>The error of a failed run.\<close>

definition errorOf :: "(error + 'a) option \<Rightarrow> error option" where
  "errorOf r = (case r of Some (Inl e) \<Rightarrow> Some e | _ \<Rightarrow> None)"

text \<open>A cycle (\<open>a\<close> includes \<open>b\<close>, \<open>b\<close> includes \<open>a\<close>) and a diamond (\<open>a\<close> includes \<open>b\<close>
  and \<open>c\<close>, both of which include \<open>d\<close>).\<close>

definition cycleFiles :: "(string \<times> Config) list" where
  "cycleFiles =
     [(''/w/a.yaml'', mkConfig [''/w/b.yaml''] [mkRepository ''one'' [] []] []),
      (''/w/b.yaml'', mkConfig [''/w/a.yaml''] [mkRepository ''two'' [] []] [])]"

definition diamondFiles :: "(string \<times> Config) list" where
  "diamondFiles =
     [(''/w/a.yaml'', mkConfig [''b.yaml'', ''c.yaml''] [mkRepository ''one'' [] []] []),
      (''/w/b.yaml'', mkConfig [''d.yaml''] [] []),
      (''/w/c.yaml'', mkConfig [''d.yaml''] [] []),
      (''/w/d.yaml'', mkConfig [] [mkRepository ''shared'' [] []] [])]"

text \<open>One file whose repository \<open>svc\<close> lists the label \<open>backend\<close> twice.\<close>

definition duplicateLabelFiles :: "(string \<times> Config) list" where
  "duplicateLabelFiles =
     [(''/w/gorepos.yaml'',
         mkConfig [] [mkRepository ''svc'' [] [''backend'', ''backend'']] [])]"

text \<open>Two repositories tagged \<open>env=prod\<close>; and three repositories of which the last two
  carry the tag \<open>x_tag_y=z\<close> and the first, \<open>a_tag_x\<close>, the tag \<open>y=z\<close>.\<close>

definition sharedTagFiles :: "(string \<times> Config) list" where
  "sharedTagFiles =
     [(''/w/gorepos.yaml'',
         mkConfig []
           [mkRepository ''a'' [(''env'', VString ''prod'')] [],
            mkRepository ''b'' [(''env'', VString ''prod'')] []] [])]"

definition collidingTagFiles :: "(string \<times> Config) list" where
  "collidingTagFiles =
     [(''/w/gorepos.yaml'',
         mkConfig []
           [mkRepository ''a_tag_x'' [(''y'', VString ''z'')] [],
            mkRepository ''a'' [(''x_tag_y'', VString ''z'')] [],
            mkRepository ''b'' [(''x_tag_y'', VString ''z'')] []] [])]"

section \<open>Verified properties\<close>

subsection \<open>Strings\<close>

lemma splitAcc_not_Nil: "splitAcc acc c s \<noteq> []"
  by (induction s arbitrary: acc) auto

lemma splitAcc_at_separator: "splitAcc acc c (p @ c # r) = splitAcc acc c p @ splitAcc [] c r"
  by (induction p arbitrary: acc) auto

lemma Join_splitAcc: "Join (splitAcc acc c s) [c] = acc @ s"
proof (induction s arbitrary: acc)
  case Nil
  then show ?case by simp
next
  case (Cons x xs)
  show ?case
  proof (cases "x = c")
    case True
    obtain y ys where e: "splitAcc [] c xs = y # ys"
      using splitAcc_not_Nil[of "[]" c xs] by (cases "splitAcc [] c xs") auto
    have "Join (y # ys) [c] = xs"
      using Cons.IH[of "[]"] e by simp
    then show ?thesis
      using True e by simp
  next
    case False
    then show ?thesis
      using Cons.IH[of "acc @ [x]"] by simp
  qed
qed

lemma Join_Split: "Join (Split s c) [c] = s"
  by (simp add: Split_def Join_splitAcc)

lemma Join_append:
  "xs \<noteq> [] \<Longrightarrow> ys \<noteq> [] \<Longrightarrow> Join (xs @ ys) sep = Join xs sep @ sep @ Join ys sep"
proof (induction xs sep rule: Join.induct)
  case (1 sep)
  then show ?case by simp
next
  case (2 x sep)
  then show ?case by (cases ys) auto
next
  case (3 x y ys sep)
  then show ?case by simp
qed

text \<open>The string test of \<open>IsInScope\<close> is the prefix order on the lists of path segments.\<close>

lemma Split_prefix_iff:
  "prefix (Split p c) (Split q c) \<longleftrightarrow> q = p \<or> HasPrefix q (p @ [c])"
proof
  assume "prefix (Split p c) (Split q c)"
  then obtain zs where z: "Split q c = Split p c @ zs"
    by (auto simp: prefix_def)
  show "q = p \<or> HasPrefix q (p @ [c])"
  proof (cases zs)
    case Nil
    then have "Join (Split q c) [c] = Join (Split p c) [c]"
      using z by simp
    then show ?thesis
      by (simp add: Join_Split)
  next
    case (Cons a as)
    have "Split p c \<noteq> []"
      by (simp add: Split_def splitAcc_not_Nil)
    then have "Join (Split q c) [c] = Join (Split p c) [c] @ [c] @ Join zs [c]"
      using z Cons by (simp add: Join_append)
    then have "q = p @ [c] @ Join zs [c]"
      by (simp add: Join_Split)
    then show ?thesis
      by (simp add: HasPrefix_def)
  qed
next
  assume "q = p \<or> HasPrefix q (p @ [c])"
  then show "prefix (Split p c) (Split q c)"
  proof
    assume "q = p"
    then show ?thesis by simp
  next
    assume "HasPrefix q (p @ [c])"
    then have "q = p @ c # drop (Suc (length p)) q"
      by (metis HasPrefix_def append_take_drop_id length_append_singleton append.assoc
          append_Cons append_Nil)
    then have "Split q c = Split p c @ Split (drop (Suc (length p)) q) c"
      by (metis Split_def splitAcc_at_separator)
    then show ?thesis by simp
  qed
qed

subsection \<open>Scope\<close>

text \<open>
  C2, as the claim states it, fails on a built graph. In the build of \<open>nestedFiles\<close> the
  repository \<open>svc\<close> has the full path \<open>root/sub\<close> and the group \<open>all\<close> of the root file has
  the full path \<open>root\<close>; the path of the repository starts with \<open>root/\<close>, the group is not
  the root node, and \<open>IsInScope\<close> is false: a scope whose path is the literal \<open>root\<close> takes
  only the nodes whose path is \<open>root\<close> as well.
\<close>

theorem IsInScope_root_path_counterexample:
  "case BuildGraph 6 (exampleEnv nestedFiles) NewGraphBuilder ''/w/gorepos.yaml'' of
     Some (Inr g) \<Rightarrow>
       (case (GetNode g ''repo_svc'', GetNode g ''group_root_all'') of
          (Some n, Some s) \<Rightarrow>
            \<not> (IsInScope n s \<longleftrightarrow>
                 (Type s = NodeTypeRoot \<or> GetPathString n = GetPathString s
                  \<or> HasPrefix (GetPathString n) (GetPathString s @ ''/'')))
        | _ \<Rightarrow> False)
   | _ \<Rightarrow> False"
  by code_simp

text \<open>
  C2, amended: \<open>IsInScope node scopeNode\<close> holds if and only if the scope node has the type
  root; or the scope's full path is the literal \<open>root\<close> and so is the node's; or the scope's
  full path is not \<open>root\<close> and the node's full path equals it or starts with it followed by
  \<open>/\<close>, which is to say that the segments of the scope's path are a prefix of the segments
  of the node's path.
\<close>

theorem IsInScope_iff:
  "(IsInScope n s \<longleftrightarrow>
      Type s = NodeTypeRoot
      \<or> (GetPathString s = ''root'' \<and> GetPathString n = ''root'')
      \<or> (GetPathString s \<noteq> ''root''
          \<and> (GetPathString n = GetPathString s
              \<or> HasPrefix (GetPathString n) (GetPathString s @ ''/''))))
   \<and> ((GetPathString n = GetPathString s \<or> HasPrefix (GetPathString n) (GetPathString s @ ''/''))
        \<longleftrightarrow> prefix (Split (GetPathString s) CHR ''/'') (Split (GetPathString n) CHR ''/''))"
  using Split_prefix_iff[of "GetPathString s" "CHR ''/''" "GetPathString n"]
  by (auto simp: IsInScope_def Let_def)


text \<open>The characterisation at a group of scope \<open>backend\<close>: a repository below
  \<open>backend/\<close> is in scope, one below \<open>backend2/\<close> is not.\<close>

theorem IsInScope_iff_witness:
  "GetPathString ((NewGraphNode ''group_backend_all'' NodeTypeGroup ''all'') \<lparr> FullPath := ''backend'' \<rparr>) \<noteq> ''root''
   \<and> IsInScope ((NewGraphNode ''repo_db'' NodeTypeRepository ''db'') \<lparr> FullPath := ''backend/data'' \<rparr>)
        ((NewGraphNode ''group_backend_all'' NodeTypeGroup ''all'') \<lparr> FullPath := ''backend'' \<rparr>)
   \<and> \<not> IsInScope ((NewGraphNode ''repo_db'' NodeTypeRepository ''db'') \<lparr> FullPath := ''backend2/data'' \<rparr>)
        ((NewGraphNode ''group_backend_all'' NodeTypeGroup ''all'') \<lparr> FullPath := ''backend'' \<rparr>)"
  using IsInScope_iff[of "(NewGraphNode ''repo_db'' NodeTypeRepository ''db'') \<lparr> FullPath := ''backend/data'' \<rparr>"
          "(NewGraphNode ''group_backend_all'' NodeTypeGroup ''all'') \<lparr> FullPath := ''backend'' \<rparr>"]
        IsInScope_iff[of "(NewGraphNode ''repo_db'' NodeTypeRepository ''db'') \<lparr> FullPath := ''backend2/data'' \<rparr>"
          "(NewGraphNode ''group_backend_all'' NodeTypeGroup ''all'') \<lparr> FullPath := ''backend'' \<rparr>"]
  by (simp add: GetPathString_def NewGraphNode_def HasPrefix_def)







subsection \<open>The index engine\<close>

lemma AddNode_Inr:
  assumes "AddNode n g = Inr g'"
  shows "GetNode g (ID n) = None"
    and "GetNode g' i = (if i = ID n then Some (cachePath n) else GetNode g i)"
    and "NodesByType g' t = (if t = Type n then NodesByType g t @ [ID n] else NodesByType g t)"
    and "Relationships g' = Relationships g"
    and "Nodes g' = Nodes g @ [(ID n, cachePath n)]"
proof -
  show none: "GetNode g (ID n) = None"
    using assms by (auto simp: AddNode_def split: if_splits)
  have g': "g' = indexNode n (g \<lparr> Nodes := Nodes g @ [(ID n, cachePath n)] \<rparr>)"
    using assms by (auto simp: AddNode_def split: if_splits)
  show "GetNode g' i = (if i = ID n then Some (cachePath n) else GetNode g i)"
    using none by (auto simp: g' indexNode_def GetNode_def map_add_def split: option.splits)
  show "NodesByType g' t = (if t = Type n then NodesByType g t @ [ID n] else NodesByType g t)"
    by (simp add: g' indexNode_def)
  show "Relationships g' = Relationships g"
    by (simp add: g' indexNode_def)
  show "Nodes g' = Nodes g @ [(ID n, cachePath n)]"
    by (simp add: g' indexNode_def)
qed

lemma AddRelationship_Inr:
  assumes "AddRelationship r g = Inr g'"
  shows "Nodes g' = Nodes g" and "NodesByType g' = NodesByType g" and "GetNode g' = GetNode g"
    and "AllRepositories g' = AllRepositories g" and "AllGroups g' = AllGroups g"
    and "map_of (Relationships g) (relID r) = None"
    and "Relationships g' = Relationships g @ [(relID r, r)]"
  using assms
  by (auto simp: AddRelationship_def indexRelationship_def GetNode_def fun_eq_iff split: if_splits)

subsection \<open>Fields of the nodes the builder creates\<close>

lemma cachePath_fields [simp]:
  "ID (cachePath n) = ID n" "Name (cachePath n) = Name n" "Type (cachePath n) = Type n"
  "Path (cachePath n) = Path n" "Children (cachePath n) = Children n"
  "GroupData (cachePath n) = GroupData n" "ConfigData (cachePath n) = ConfigData n"
  "RepositoryData (cachePath n) = RepositoryData n" "Level (cachePath n) = Level n"
  by (simp_all add: cachePath_def)

lemma createRepositoryNode_fields:
  "ID (createRepositoryNode repo cn) = ''repo_'' @ repoName repo"
  "Name (createRepositoryNode repo cn) = repoName repo"
  "Type (createRepositoryNode repo cn) = NodeTypeRepository"
  by (simp_all add: createRepositoryNode_def Let_def MarkAsExplicit_def NewGraphNode_def)

lemma createGroupNode_fields:
  "Type (createGroupNode gname repos cn g) = NodeTypeGroup"
  "Name (createGroupNode gname repos cn g) = gname"
  "Path (createGroupNode gname repos cn g) = Path cn @ (if Name cn \<noteq> ''root'' then [Name cn] else [])"
  "FullPath (createGroupNode gname repos cn g) =
     (if Join (Path cn @ (if Name cn \<noteq> ''root'' then [Name cn] else [])) ''/'' = [] then ''root''
      else Join (Path cn @ (if Name cn \<noteq> ''root'' then [Name cn] else [])) ''/'')"
  "ID (createGroupNode gname repos cn g) =
     ''group_'' @ ReplaceAll (GetPathString cn) CHR ''/'' CHR ''_'' @ ''_'' @ gname"
  by (simp_all add: createGroupNode_def Let_def MarkAsDerived_def NewGraphNode_def)

lemma createConfigNode_fields:
  "ID (createConfigNode env p c) = ''config_'' @ take 8 (sha256hex env p)"
  "Type (createConfigNode env p c) = NodeTypeConfig"
  "ConfigData (createConfigNode env p c) = Some c"
  by (simp_all add: createConfigNode_def Let_def MarkAsExplicit_def NewGraphNode_def)

subsection \<open>Successful expansions of the hierarchy\<close>

text \<open>One successful call, taken apart.\<close>

lemma buildConfigHierarchy_Suc_Inr:
  assumes "buildConfigHierarchy (Suc k) env p parentID (b, g) = Some (Inr (b', g'))"
  obtains a c g1 parentNode g3 b'' where
    "fileAbs env p = Some a" "\<not> visited b a" "loadConfig env a = Some c"
    "AddNode (createConfigNode env a c) g = Inr g1"
    "GetNode g1 parentID = Some parentNode"
    "AddRelationship
       (NewRelationship (''pc_'' @ ID parentNode @ ''_'' @ ID (createConfigNode env a c))
          parentNode (createConfigNode env a c) RelationParentChild)
       (attachChild parentID parentNode (cachePath (createConfigNode env a c)) g1) = Inr g3"
    "buildIncludes k env (fileDir env a) (Includes c) (ID (createConfigNode env a c))
       (b \<lparr> visited := (visited b)(a := True) \<rparr>, g3) = Some (Inr (b'', g'))"
    "b' = b'' \<lparr> visited := (visited b'')(a := False) \<rparr>"
  using assms
  by (auto simp: Let_def split: option.splits if_splits sum.splits prod.splits)

lemma buildIncludes_Cons_Inr:
  assumes "buildIncludes k env dir (inc # rest) cid s = Some (Inr s')"
  obtains s1 where
    "buildConfigHierarchy k env (if fileIsAbs env inc then inc else fileJoin env dir inc) cid s = Some (Inr s1)"
    "buildIncludes k env dir rest cid s1 = Some (Inr s')"
  using assms
  by (auto simp: Let_def split: option.splits sum.splits)

text \<open>Induction over a successful expansion of the hierarchy.\<close>

lemma hierarchy_success_induct:
  assumes node: "\<And>k env p parentID b g a c g1 parentNode g3 b'' g'.
      fileAbs env p = Some a \<Longrightarrow> \<not> visited b a \<Longrightarrow> loadConfig env a = Some c \<Longrightarrow>
      AddNode (createConfigNode env a c) g = Inr g1 \<Longrightarrow>
      GetNode g1 parentID = Some parentNode \<Longrightarrow>
      AddRelationship
        (NewRelationship (''pc_'' @ ID parentNode @ ''_'' @ ID (createConfigNode env a c))
           parentNode (createConfigNode env a c) RelationParentChild)
        (attachChild parentID parentNode (cachePath (createConfigNode env a c)) g1) = Inr g3 \<Longrightarrow>
      buildIncludes k env (fileDir env a) (Includes c) (ID (createConfigNode env a c))
        (b \<lparr> visited := (visited b)(a := True) \<rparr>, g3) = Some (Inr (b'', g')) \<Longrightarrow>
      Q (b \<lparr> visited := (visited b)(a := True) \<rparr>, g3) (b'', g') \<Longrightarrow>
      P (b, g) (b'' \<lparr> visited := (visited b'')(a := False) \<rparr>, g')"
    and nil: "\<And>s. Q s s"
    and cons: "\<And>s s1 s'. P s s1 \<Longrightarrow> Q s1 s' \<Longrightarrow> Q s s'"
  shows "buildConfigHierarchy k env p parentID s = Some (Inr s') \<Longrightarrow> P s s'"
    and "buildIncludes k env dir incs cid s = Some (Inr s') \<Longrightarrow> Q s s'"
proof (induction k env p parentID s and k env dir incs cid s arbitrary: s' and s'
       rule: buildConfigHierarchy_buildIncludes.induct)
  case (1 env configPath parentID s)
  then show ?case by simp
next
  case (2 k env configPath parentID b g)
  obtain b' g' where s': "s' = (b', g')" by (cases s')
  from "2.prems"[unfolded s'] obtain a c g1 parentNode g3 b'' where f:
    "fileAbs env configPath = Some a" "\<not> visited b a" "loadConfig env a = Some c"
    "AddNode (createConfigNode env a c) g = Inr g1"
    "GetNode g1 parentID = Some parentNode"
    "AddRelationship
       (NewRelationship (''pc_'' @ ID parentNode @ ''_'' @ ID (createConfigNode env a c))
          parentNode (createConfigNode env a c) RelationParentChild)
       (attachChild parentID parentNode (cachePath (createConfigNode env a c)) g1) = Inr g3"
    "buildIncludes k env (fileDir env a) (Includes c) (ID (createConfigNode env a c))
       (b \<lparr> visited := (visited b)(a := True) \<rparr>, g3) = Some (Inr (b'', g'))"
    "b' = b'' \<lparr> visited := (visited b'')(a := False) \<rparr>"
    by (rule buildConfigHierarchy_Suc_Inr)
  have "Q (b \<lparr> visited := (visited b)(a := True) \<rparr>, g3) (b'', g')"
    using "2.IH"[OF f(1) f(2) f(3) refl f(4) f(5) f(6) f(7)] .
  then show ?case
    unfolding s' f(8) using node[OF f(1) f(2) f(3) f(4) f(5) f(6) f(7)] by blast
next
  case (3 k env configDir configID s)
  then show ?case using nil by simp
next
  case (4 k env configDir inc rest configID s)
  from "4.prems" obtain s1 where
    a: "buildConfigHierarchy k env (if fileIsAbs env inc then inc else fileJoin env configDir inc) configID s = Some (Inr s1)"
    and r: "buildIncludes k env configDir rest configID s1 = Some (Inr s')"
    by (rule buildIncludes_Cons_Inr)
  show ?case
    using cons[OF "4.IH"(1)[OF refl a] "4.IH"(2)[OF refl a refl r]] .
qed

lemma hierarchy_keeps_repository_index:
  assumes "buildConfigHierarchy k env p parentID s = Some (Inr s')"
  shows "NodesByType (snd s') NodeTypeRepository = NodesByType (snd s) NodeTypeRepository"
proof (rule hierarchy_success_induct(1)
         [where P = "\<lambda>s s'. NodesByType (snd s') NodeTypeRepository = NodesByType (snd s) NodeTypeRepository"
            and Q = "\<lambda>s s'. NodesByType (snd s') NodeTypeRepository = NodesByType (snd s) NodeTypeRepository",
          OF _ _ _ assms])
  fix env parentID a c parentNode and b b'' :: GraphBuilder and g g1 g3 g' :: RepositoryGraph
  assume add: "AddNode (createConfigNode env a c) g = Inr g1"
    and rel: "AddRelationship
        (NewRelationship (''pc_'' @ ID parentNode @ ''_'' @ ID (createConfigNode env a c))
           parentNode (createConfigNode env a c) RelationParentChild)
        (attachChild parentID parentNode (cachePath (createConfigNode env a c)) g1) = Inr g3"
    and inner: "NodesByType (snd (b'', g')) NodeTypeRepository
                  = NodesByType (snd (b \<lparr> visited := (visited b)(a := True) \<rparr>, g3)) NodeTypeRepository"
  have "NodesByType g3 NodeTypeRepository = NodesByType g1 NodeTypeRepository"
    using AddRelationship_Inr(2)[OF rel] by (simp add: attachChild_def split_beta)
  then show "NodesByType (snd (b'' \<lparr> visited := (visited b'')(a := False) \<rparr>, g')) NodeTypeRepository
               = NodesByType (snd (b, g)) NodeTypeRepository"
    using inner AddNode_Inr(3)[OF add] by (simp add: createConfigNode_fields)
qed simp_all

subsection \<open>Repository names are unique in a build\<close>

lemma repositoriesIndexed_AddNode_repo:
  assumes inv: "repositoriesIndexed g" and add: "AddNode (createRepositoryNode repo cn) g = Inr g'"
  shows "repositoriesIndexed g'"
proof -
  let ?n = "createRepositoryNode repo cn"
  note f = AddNode_Inr[OF add]
  have fresh: "ID ?n \<notin> set (NodesByType g NodeTypeRepository)"
    using inv f(1) unfolding repositoriesIndexed_def by (auto split: option.splits)
  show ?thesis
    using inv fresh unfolding repositoriesIndexed_def
    by (auto simp: f(2,3) createRepositoryNode_fields split: option.splits)
qed

lemma repositoriesIndexed_AddNode_other:
  assumes inv: "repositoriesIndexed g" and add: "AddNode n g = Inr g'"
    and t: "Type n \<noteq> NodeTypeRepository"
  shows "repositoriesIndexed g'"
proof -
  note f = AddNode_Inr[OF add]
  have "\<And>i. i \<in> set (NodesByType g NodeTypeRepository) \<Longrightarrow> i \<noteq> ID n"
    using inv f(1) unfolding repositoriesIndexed_def by (auto split: option.splits)
  then show ?thesis
    using inv t unfolding repositoriesIndexed_def
    by (auto simp: f(2,3) split: option.splits)
qed

lemma repositoriesIndexed_AddRelationship:
  assumes inv: "repositoriesIndexed g" and add: "AddRelationship r g = Inr g'"
  shows "repositoriesIndexed g'"
  using inv unfolding repositoriesIndexed_def
  by (simp add: AddRelationship_Inr(2,3)[OF add])

lemma repositoriesIndexed_addRepositories:
  "repositoriesIndexed g \<Longrightarrow> addRepositories cn repos g = Inr g' \<Longrightarrow> repositoriesIndexed g'"
proof (induction repos arbitrary: g)
  case Nil
  then show ?case by simp
next
  case (Cons repo rest)
  from Cons.prems(2) obtain g1 g2 where
    a: "AddNode (createRepositoryNode repo cn) g = Inr g1"
    and r: "AddRelationship (NewRelationship (''def_'' @ ID cn @ ''_'' @ ID (createRepositoryNode repo cn))
               cn (createRepositoryNode repo cn) RelationDefines) g1 = Inr g2"
    and rest: "addRepositories cn rest g2 = Inr g'"
    by (auto simp: Let_def split: sum.splits)
  have "repositoriesIndexed g2"
    using repositoriesIndexed_AddRelationship[OF repositoriesIndexed_AddNode_repo[OF Cons.prems(1) a] r] .
  then show ?case
    using Cons.IH rest by blast
qed

lemma repositoriesIndexed_repositoriesOfConfigs:
  "repositoriesIndexed g \<Longrightarrow> repositoriesOfConfigs cns g = Inr g' \<Longrightarrow> repositoriesIndexed g'"
proof (induction cns arbitrary: g)
  case Nil
  then show ?case by simp
next
  case (Cons cn rest)
  show ?case
  proof (cases "ConfigData cn")
    case None
    then show ?thesis using Cons by simp
  next
    case (Some c)
    then obtain g1 where a: "addRepositories cn (Repositories c) g = Inr g1"
      and r: "repositoriesOfConfigs rest g1 = Inr g'"
      using Cons.prems(2) by (auto split: sum.splits)
    show ?thesis
      using Cons.IH[OF repositoriesIndexed_addRepositories[OF Cons.prems(1) a] r] .
  qed
qed

lemma repositoriesIndexed_names:
  assumes "repositoriesIndexed g"
  shows "distinct (map Name (GetNodesByType g NodeTypeRepository))"
proof -
  have gen: "distinct ids \<Longrightarrow>
      (\<forall>i \<in> set ids. case GetNode g i of None \<Rightarrow> False | Some n \<Rightarrow> i = ''repo_'' @ Name n) \<Longrightarrow>
      map (\<lambda>n. ''repo_'' @ Name n) (List.map_filter (GetNode g) ids) = ids" for ids
    by (induction ids) (auto simp: List.map_filter_simps split: option.splits)
  have "map (\<lambda>n. ''repo_'' @ Name n) (GetNodesByType g NodeTypeRepository) = NodesByType g NodeTypeRepository"
    using assms gen unfolding repositoriesIndexed_def GetNodesByType_def by blast
  then have "distinct (map ((\<lambda>s. ''repo_'' @ s) \<circ> Name) (GetNodesByType g NodeTypeRepository))"
    using assms unfolding repositoriesIndexed_def by (simp add: comp_def)
  then show ?thesis
    by (metis distinct_map map_map)
qed

lemma build_repository_names_distinct:
  assumes "buildConfigHierarchy k env p parentID (b, g) = Some (Inr (b', g1))"
    and "NodesByType g NodeTypeRepository = []"
    and "processRepositories g1 = Inr g2"
  shows "repositoriesIndexed g2" and "distinct (map Name (GetNodesByType g2 NodeTypeRepository))"
proof -
  have "NodesByType g1 NodeTypeRepository = []"
    using hierarchy_keeps_repository_index[OF assms(1)] assms(2) by simp
  then have "repositoriesIndexed g1"
    by (simp add: repositoriesIndexed_def)
  then show "repositoriesIndexed g2"
    using assms(3) repositoriesIndexed_repositoriesOfConfigs unfolding processRepositories_def by blast
  then show "distinct (map Name (GetNodesByType g2 NodeTypeRepository))"
    by (rule repositoriesIndexed_names)
qed

text \<open>The group pass keeps the repository index as it is, so every group is created
  against repository nodes of distinct names.\<close>

lemma repositoriesIndexed_addIncludes:
  "repositoriesIndexed g \<Longrightarrow> addIncludes gn names g = Inr g' \<Longrightarrow> repositoriesIndexed g'"
proof (induction names arbitrary: g)
  case Nil
  then show ?case by simp
next
  case (Cons rname rest)
  show ?case
  proof (cases "lookupRepository g rname")
    case None
    then show ?thesis using Cons by simp
  next
    case (Some repoNode)
    then obtain g1 where r: "AddRelationship (NewRelationship (''inc_'' @ ID gn @ ''_'' @ ID repoNode)
                                gn repoNode RelationIncludes) g = Inr g1"
      and rest: "addIncludes gn rest g1 = Inr g'"
      using Cons.prems(2) by (auto split: sum.splits)
    show ?thesis
      using Cons.IH[OF repositoriesIndexed_AddRelationship[OF Cons.prems(1) r] rest] .
  qed
qed

lemma repositoriesIndexed_addGroups:
  "repositoriesIndexed g \<Longrightarrow> addGroups cn groups g = Inr g' \<Longrightarrow> repositoriesIndexed g'"
proof (induction groups arbitrary: g)
  case Nil
  then show ?case by simp
next
  case (Cons grp rest)
  obtain gname repos where grp: "grp = (gname, repos)" by (cases grp)
  let ?gn = "createGroupNode gname repos cn g"
  from Cons.prems(2) obtain g1 g2 gd g3 where
    a: "AddNode ?gn g = Inr g1"
    and r: "AddRelationship (NewRelationship (''def_'' @ ID cn @ ''_'' @ ID ?gn) cn ?gn RelationDefines) g1 = Inr g2"
    and gd: "GroupData ?gn = Some gd"
    and i: "addIncludes ?gn (ExplicitRepos gd @ InheritedRepos gd) g2 = Inr g3"
    and rest: "addGroups cn rest g3 = Inr g'"
    unfolding grp by (auto simp: Let_def split: sum.splits option.splits)
  have "repositoriesIndexed g1"
    using repositoriesIndexed_AddNode_other[OF Cons.prems(1) a] by (simp add: createGroupNode_fields)
  then have "repositoriesIndexed g3"
    using repositoriesIndexed_addIncludes[OF repositoriesIndexed_AddRelationship[OF _ r] i] by blast
  then show ?case
    using Cons.IH rest by blast
qed

subsection \<open>Group inheritance\<close>

lemma IsInScope_cong:
  "Type s = Type s' \<Longrightarrow> GetPathString s = GetPathString s' \<Longrightarrow> IsInScope n s = IsInScope n s'"
  by (simp add: IsInScope_def)

lemma sort_distinct_eq: "distinct xs \<Longrightarrow> sort xs = sorted_list_of_set (set xs)"
  by (simp add: sorted_list_of_set_sort_remdups distinct_remdups_id)

text \<open>
  C1: a group authored with an empty repository list is marked \<open>IsEmpty\<close>, and its
  \<open>InheritedRepos\<close> is the sorted list, without duplicates, of the names of the repository
  nodes that \<open>IsInScope\<close> puts in the scope of the group node. The repository nodes of a
  build have distinct names (\<open>build_repository_names_distinct\<close>). In the scenario of the
  specification the built graph has one group, empty, with the inherited repositories
  \<open>a\<close>, \<open>b\<close>, \<open>c\<close>.
\<close>

theorem empty_group_inherits:
  "(distinct (map Name (GetNodesByType g NodeTypeRepository)) \<longrightarrow>
      (\<exists>gd. GroupData (createGroupNode gname [] configNode g) = Some gd
            \<and> IsEmpty gd
            \<and> InheritedRepos gd =
                sorted_list_of_set
                  (Name ` {r \<in> set (GetNodesByType g NodeTypeRepository).
                             IsInScope r (createGroupNode gname [] configNode g)})))
   \<and> (case BuildGraph 3 (exampleEnv abcFiles) NewGraphBuilder ''/w/gorepos.yaml'' of
         Some (Inr g') \<Rightarrow>
           map (\<lambda>n. map_option (\<lambda>gd. (IsEmpty gd, InheritedRepos gd)) (GroupData n))
             (GetNodesByType g' NodeTypeGroup) = [Some (True, [''a'', ''b'', ''c''])]
       | _ \<Rightarrow> False)"
proof (intro conjI impI)
  let ?gn = "createGroupNode gname [] configNode g"
  let ?p = "Path configNode @ (if Name configNode \<noteq> ''root'' then [Name configNode] else [])"
  let ?pre = "(NewGraphNode (''group_'' @ ReplaceAll (GetPathString configNode) CHR ''/'' CHR ''_'' @ ''_'' @ gname)
                 NodeTypeGroup gname)
                \<lparr> Path := ?p, FullPath := (if Join ?p ''/'' = [] then ''root'' else Join ?p ''/''),
                  Level := int (length ?p) \<rparr>"
  assume d: "distinct (map Name (GetNodesByType g NodeTypeRepository))"
  have same: "\<And>r. IsInScope r ?pre = IsInScope r ?gn"
    by (rule IsInScope_cong) (simp_all add: createGroupNode_fields GetPathString_def NewGraphNode_def)
  have gd: "GroupData ?gn = Some \<lparr> groupName = gname, ExplicitRepos = [],
              InheritedRepos = calculateInheritedRepos ?pre g, IsEmpty = True \<rparr>"
    by (simp add: createGroupNode_def Let_def MarkAsDerived_def)
  have "distinct (map Name (filter (\<lambda>r. IsInScope r ?gn) (GetNodesByType g NodeTypeRepository)))"
    using d by (simp add: distinct_map_filter)
  then have "calculateInheritedRepos ?pre g =
      sorted_list_of_set (Name ` {r \<in> set (GetNodesByType g NodeTypeRepository). IsInScope r ?gn})"
    unfolding calculateInheritedRepos_def same by (simp add: sort_distinct_eq)
  then show "\<exists>gd. GroupData ?gn = Some gd \<and> IsEmpty gd
      \<and> InheritedRepos gd =
          sorted_list_of_set (Name ` {r \<in> set (GetNodesByType g NodeTypeRepository). IsInScope r ?gn})"
    using gd by simp
next
  show "case BuildGraph 3 (exampleEnv abcFiles) NewGraphBuilder ''/w/gorepos.yaml'' of
         Some (Inr g') \<Rightarrow>
           map (\<lambda>n. map_option (\<lambda>gd. (IsEmpty gd, InheritedRepos gd)) (GroupData n))
             (GetNodesByType g' NodeTypeGroup) = [Some (True, [''a'', ''b'', ''c''])]
       | _ \<Rightarrow> False"
    by code_simp
qed

lemma abc_build_facts:
  "case BuildGraph 3 (exampleEnv abcFiles) NewGraphBuilder ''/w/gorepos.yaml'' of
     Some (Inr g) \<Rightarrow>
       (case GetNode g ''config_b9680d09'' of
          Some cn \<Rightarrow>
            distinct (map Name (GetNodesByType g NodeTypeRepository))
            \<and> map_option InheritedRepos (GroupData (createGroupNode ''everything'' [] cn g))
                = Some [''a'', ''b'', ''c'']
        | None \<Rightarrow> False)
   | _ \<Rightarrow> False"
  by code_simp

theorem empty_group_inherits_witness:
  "case BuildGraph 3 (exampleEnv abcFiles) NewGraphBuilder ''/w/gorepos.yaml'' of
     Some (Inr g) \<Rightarrow>
       (case GetNode g ''config_b9680d09'' of
          Some cn \<Rightarrow>
            distinct (map Name (GetNodesByType g NodeTypeRepository))
            \<and> (\<exists>gd. GroupData (createGroupNode ''everything'' [] cn g) = Some gd
                  \<and> IsEmpty gd
                  \<and> InheritedRepos gd =
                      sorted_list_of_set
                        (Name ` {r \<in> set (GetNodesByType g NodeTypeRepository).
                                   IsInScope r (createGroupNode ''everything'' [] cn g)})
                  \<and> InheritedRepos gd = [''a'', ''b'', ''c''])
        | None \<Rightarrow> False)
   | _ \<Rightarrow> False"
proof -
  obtain g cn where
    build: "BuildGraph 3 (exampleEnv abcFiles) NewGraphBuilder ''/w/gorepos.yaml'' = Some (Inr g)"
    and cn: "GetNode g ''config_b9680d09'' = Some cn"
    and d: "distinct (map Name (GetNodesByType g NodeTypeRepository))"
    and l: "map_option InheritedRepos (GroupData (createGroupNode ''everything'' [] cn g))
              = Some [''a'', ''b'', ''c'']"
    using abc_build_facts by (auto split: option.splits sum.splits)
  obtain gd where gd: "GroupData (createGroupNode ''everything'' [] cn g) = Some gd" "IsEmpty gd"
    "InheritedRepos gd =
       sorted_list_of_set
         (Name ` {r \<in> set (GetNodesByType g NodeTypeRepository).
                    IsInScope r (createGroupNode ''everything'' [] cn g)})"
    using empty_group_inherits[of g "''everything''" cn] d by blast
  have "InheritedRepos gd = [''a'', ''b'', ''c'']"
    using l gd(1) by simp
  then show ?thesis
    using build cn d gd by simp
qed

subsection \<open>Groups of the same name\<close>


lemma Nodes_indexNode [simp]: "Nodes (indexNode n g) = Nodes g"
  by (simp add: indexNode_def)

lemma AllGroups_rebuildRelationships [simp]:
  "AllGroups (rebuildRelationships order g) = AllGroups g"
  by (induction order arbitrary: g) (auto simp: indexRelationship_def split: option.splits)






subsection \<open>The merged global settings\<close>

text \<open>
  C8, as the claim states it, fails: with two configuration nodes at level 1 that both
  give a base path and a worker count, the merged configuration has the values of the
  second, the one met last.
\<close>

theorem merged_global_first_wins_counterexample:
  "case addNodes settingsNodes NewRepositoryGraph of
     Inr g \<Rightarrow>
       map (\<lambda>n. (ID n, Level n, map_option (BasePath \<circ> Global) (ConfigData n)))
           (GetNodesByType g NodeTypeConfig)
         = [(''config_first'', 1, Some ''/first''), (''config_deep'', 2, Some ''/deep''),
            (''config_second'', 1, Some ''/second'')]
       \<and> BasePath (Global (GetMergedConfig g)) = ''/second''
       \<and> Workers (Global (GetMergedConfig g)) = 4
   | Inl e \<Rightarrow> False"
  by code_simp

lemma mergeGlobal_other: "Level n \<noteq> 1 \<Longrightarrow> mergeGlobal acc n = acc"
  by (simp add: mergeGlobal_def split: option.splits)

lemma foldl_mergeGlobal_filter:
  "foldl mergeGlobal acc ns = foldl mergeGlobal acc (filter (\<lambda>n. Level n = 1) ns)"
  by (induction ns arbitrary: acc) (simp_all add: mergeGlobal_other)

lemma map_of_foldl_update:
  "map_of (foldl (\<lambda>m (k, v). AList.update k v m) m0 e) = map_of m0 ++ map_of (rev e)"
proof (induction e arbitrary: m0)
  case Nil
  then show ?case by simp
next
  case (Cons kv e)
  obtain k v where kv: "kv = (k, v)" by (cases kv)
  show ?case
    by (simp add: kv Cons.IH update_conv' map_add_def fun_eq_iff split: option.splits)
qed

lemma mergeGlobal_fields:
  "BasePath (mergeGlobal acc n) =
     (case ConfigData n of
        Some c \<Rightarrow> if Level n = 1 \<and> BasePath (Global c) \<noteq> [] then BasePath (Global c) else BasePath acc
      | None \<Rightarrow> BasePath acc)"
  "Workers (mergeGlobal acc n) =
     (case ConfigData n of
        Some c \<Rightarrow> if Level n = 1 \<and> Workers (Global c) > 0 then Workers (Global c) else Workers acc
      | None \<Rightarrow> Workers acc)"
  "Timeout (mergeGlobal acc n) =
     (case ConfigData n of
        Some c \<Rightarrow> if Level n = 1 \<and> Timeout (Global c) > 0 then Timeout (Global c) else Timeout acc
      | None \<Rightarrow> Timeout acc)"
  "map_of (Environment (mergeGlobal acc n)) =
     (case ConfigData n of
        Some c \<Rightarrow> if Level n = 1 then map_of (Environment acc) ++ map_of (rev (Environment (Global c)))
                  else map_of (Environment acc)
      | None \<Rightarrow> map_of (Environment acc))"
  by (simp_all add: mergeGlobal_def map_of_foldl_update split: option.splits)

lemma levelOne_Cons:
  "map Global (List.map_filter ConfigData (filter (\<lambda>n. Level n = 1) (n # ns))) =
     (case ConfigData n of
        Some c \<Rightarrow> if Level n = 1 then [Global c] else []
      | None \<Rightarrow> [])
     @ map Global (List.map_filter ConfigData (filter (\<lambda>n. Level n = 1) ns))"
  by (simp add: List.map_filter_simps split: option.splits)

lemma last_filter_step:
  "(case filter P (xs @ ys) of [] \<Rightarrow> d | z # zs \<Rightarrow> last (z # zs)) =
     (case filter P ys of
        [] \<Rightarrow> (case filter P xs of [] \<Rightarrow> d | z # zs \<Rightarrow> last (z # zs))
      | z # zs \<Rightarrow> last (z # zs))"
proof -
  have c: "\<And>l e. (case l of [] \<Rightarrow> e | z # zs \<Rightarrow> last (z # zs)) = (if l = [] then e else last l)"
    by (simp split: list.splits)
  show ?thesis
    unfolding c by (simp add: last_append)
qed

lemma foldl_mergeGlobal_BasePath:
  "BasePath (foldl mergeGlobal acc ns) =
     (case filter (\<lambda>s. s \<noteq> [])
             (map BasePath (map Global (List.map_filter ConfigData (filter (\<lambda>n. Level n = 1) ns)))) of
        [] \<Rightarrow> BasePath acc | x # xs \<Rightarrow> last (x # xs))"
proof (induction ns arbitrary: acc)
  case Nil
  then show ?case by (simp add: List.map_filter_simps)
next
  case (Cons n ns)
  show ?case
    unfolding foldl_Cons Cons.IH levelOne_Cons map_append last_filter_step
    by (simp add: mergeGlobal_fields split: option.splits list.splits)
qed

lemma foldl_mergeGlobal_Workers:
  "Workers (foldl mergeGlobal acc ns) =
     (case filter (\<lambda>w. w > 0)
             (map Workers (map Global (List.map_filter ConfigData (filter (\<lambda>n. Level n = 1) ns)))) of
        [] \<Rightarrow> Workers acc | x # xs \<Rightarrow> last (x # xs))"
proof (induction ns arbitrary: acc)
  case Nil
  then show ?case by (simp add: List.map_filter_simps)
next
  case (Cons n ns)
  show ?case
    unfolding foldl_Cons Cons.IH levelOne_Cons map_append last_filter_step
    by (simp add: mergeGlobal_fields split: option.splits list.splits)
qed

lemma foldl_mergeGlobal_Timeout:
  "Timeout (foldl mergeGlobal acc ns) =
     (case filter (\<lambda>w. w > 0)
             (map Timeout (map Global (List.map_filter ConfigData (filter (\<lambda>n. Level n = 1) ns)))) of
        [] \<Rightarrow> Timeout acc | x # xs \<Rightarrow> last (x # xs))"
proof (induction ns arbitrary: acc)
  case Nil
  then show ?case by (simp add: List.map_filter_simps)
next
  case (Cons n ns)
  show ?case
    unfolding foldl_Cons Cons.IH levelOne_Cons map_append last_filter_step
    by (simp add: mergeGlobal_fields split: option.splits list.splits)
qed

lemma foldl_mergeGlobal_Environment:
  "map_of (Environment (foldl mergeGlobal acc ns)) =
     map_of (Environment acc)
       ++ map_of (rev (concat (map Environment
            (map Global (List.map_filter ConfigData (filter (\<lambda>n. Level n = 1) ns))))))"
proof (induction ns arbitrary: acc)
  case Nil
  then show ?case by (simp add: List.map_filter_simps)
next
  case (Cons n ns)
  show ?case
    unfolding foldl_Cons Cons.IH levelOne_Cons map_append concat_append rev_append map_of_append
    by (simp add: mergeGlobal_fields split: option.splits)
qed

text \<open>
  C8, amended: the global settings of the merged configuration are those of the
  configuration nodes at level 1 alone, whatever the nodes at level 2 and deeper hold; for
  the base path, the worker count and the timeout the last node at level 1, in the order
  of the type index, that gives a non-empty (positive) value wins, and the defaults are the
  empty path, 8 and 300; for each environment key the last binding among the nodes at level
  1 wins.
\<close>

theorem merged_global_from_level_one:
  "Global (GetMergedConfig g) =
     foldl mergeGlobal defaultGlobal (filter (\<lambda>n. Level n = 1) (GetNodesByType g NodeTypeConfig))
   \<and> BasePath (Global (GetMergedConfig g)) =
       (case filter (\<lambda>s. s \<noteq> []) (map BasePath (levelOneGlobals g)) of
          [] \<Rightarrow> [] | x # xs \<Rightarrow> last (x # xs))
   \<and> Workers (Global (GetMergedConfig g)) =
       (case filter (\<lambda>w. w > 0) (map Workers (levelOneGlobals g)) of
          [] \<Rightarrow> 8 | x # xs \<Rightarrow> last (x # xs))
   \<and> Timeout (Global (GetMergedConfig g)) =
       (case filter (\<lambda>w. w > 0) (map Timeout (levelOneGlobals g)) of
          [] \<Rightarrow> 300 | x # xs \<Rightarrow> last (x # xs))
   \<and> map_of (Environment (Global (GetMergedConfig g))) =
       map_of (rev (concat (map Environment (levelOneGlobals g))))"
proof -
  have d: "BasePath defaultGlobal = []" "Workers defaultGlobal = 8" "Timeout defaultGlobal = 300"
    "Environment defaultGlobal = []"
    by (simp_all add: defaultGlobal_def)
  have m: "Global (GetMergedConfig g) = foldl mergeGlobal defaultGlobal (GetNodesByType g NodeTypeConfig)"
    by (simp add: GetMergedConfig_def)
  have 1: "Global (GetMergedConfig g) =
     foldl mergeGlobal defaultGlobal (filter (\<lambda>n. Level n = 1) (GetNodesByType g NodeTypeConfig))"
    unfolding m by (rule foldl_mergeGlobal_filter)
  have 2: "BasePath (Global (GetMergedConfig g)) =
       (case filter (\<lambda>s. s \<noteq> []) (map BasePath (levelOneGlobals g)) of
          [] \<Rightarrow> [] | x # xs \<Rightarrow> last (x # xs))"
    unfolding m levelOneGlobals_def foldl_mergeGlobal_BasePath d ..
  have 3: "Workers (Global (GetMergedConfig g)) =
       (case filter (\<lambda>w. w > 0) (map Workers (levelOneGlobals g)) of
          [] \<Rightarrow> 8 | x # xs \<Rightarrow> last (x # xs))"
    unfolding m levelOneGlobals_def foldl_mergeGlobal_Workers d ..
  have 4: "Timeout (Global (GetMergedConfig g)) =
       (case filter (\<lambda>w. w > 0) (map Timeout (levelOneGlobals g)) of
          [] \<Rightarrow> 300 | x # xs \<Rightarrow> last (x # xs))"
    unfolding m levelOneGlobals_def foldl_mergeGlobal_Timeout d ..
  have 5: "map_of (Environment (Global (GetMergedConfig g))) =
       map_of (rev (concat (map Environment (levelOneGlobals g))))"
    unfolding m levelOneGlobals_def foldl_mergeGlobal_Environment d by simp
  show ?thesis
    using 1 2 3 4 5 by blast
qed

lemma settings_facts:
  "case addNodes settingsNodes NewRepositoryGraph of
     Inr g \<Rightarrow>
       (case filter (\<lambda>s. s \<noteq> []) (map BasePath (levelOneGlobals g)) of
          [] \<Rightarrow> [] | x # xs \<Rightarrow> last (x # xs)) = ''/second''
       \<and> (case filter (\<lambda>w. w > 0) (map Timeout (levelOneGlobals g)) of
          [] \<Rightarrow> 300 | x # xs \<Rightarrow> last (x # xs)) = 10
       \<and> map_of (rev (concat (map Environment (levelOneGlobals g)))) ''STAGE'' = Some ''two''
   | Inl e \<Rightarrow> False"
  by code_simp

theorem merged_global_from_level_one_witness:
  "case addNodes settingsNodes NewRepositoryGraph of
     Inr g \<Rightarrow>
       BasePath (Global (GetMergedConfig g)) = ''/second''
       \<and> Timeout (Global (GetMergedConfig g)) = 10
       \<and> map_of (Environment (Global (GetMergedConfig g))) ''STAGE'' = Some ''two''
   | Inl e \<Rightarrow> False"
proof -
  obtain g where g: "addNodes settingsNodes NewRepositoryGraph = Inr g"
    and f: "(case filter (\<lambda>s. s \<noteq> []) (map BasePath (levelOneGlobals g)) of
          [] \<Rightarrow> [] | x # xs \<Rightarrow> last (x # xs)) = ''/second''"
      "(case filter (\<lambda>w. w > 0) (map Timeout (levelOneGlobals g)) of
          [] \<Rightarrow> 300 | x # xs \<Rightarrow> last (x # xs)) = 10"
      "map_of (rev (concat (map Environment (levelOneGlobals g)))) ''STAGE'' = Some ''two''"
    using settings_facts by (auto split: sum.splits)
  have t: "BasePath (Global (GetMergedConfig g)) =
       (case filter (\<lambda>s. s \<noteq> []) (map BasePath (levelOneGlobals g)) of
          [] \<Rightarrow> [] | x # xs \<Rightarrow> last (x # xs))"
    "Timeout (Global (GetMergedConfig g)) =
       (case filter (\<lambda>w. w > 0) (map Timeout (levelOneGlobals g)) of
          [] \<Rightarrow> 300 | x # xs \<Rightarrow> last (x # xs))"
    "map_of (Environment (Global (GetMergedConfig g))) =
       map_of (rev (concat (map Environment (levelOneGlobals g))))"
    using merged_global_from_level_one[of g] by blast+
  show ?thesis
    unfolding g using f by (simp add: t)
qed

subsection \<open>Groups for display\<close>

text \<open>
  C9, as the claim states it, fails on a built graph: the two groups \<open>all\<close> of
  \<open>backendFiles\<close> are at the scopes \<open>root/x/backend\<close> and \<open>root/y/backend\<close>, both get the
  display name \<open>backend-all\<close>, and the result has one entry, with the members of the second
  group only.
\<close>

theorem display_names_collide_counterexample:
  "case BuildGraph 5 (exampleEnv backendFiles) NewGraphBuilder ''/w/gorepos.yaml'' of
     Some (Inr g) \<Rightarrow>
       map (\<lambda>n. (ID n, GetPathString n, map_option ExplicitRepos (GroupData n)))
           (GetNodesByType g NodeTypeGroup)
         = [(''group_root_x_all'', ''root/x/backend'', Some [''xdb'']),
            (''group_root_y_all'', ''root/y/backend'', Some [''ydb''])]
       \<and> GetGroupsForDisplay g = [(''backend-all'', [''ydb''])]
   | _ \<Rightarrow> False"
  by code_simp

lemma uniqueRepos_set: "set (uniqueRepos seen xs) = set xs - set seen"
  by (induction seen xs rule: uniqueRepos.induct) auto

lemma uniqueRepos_distinct: "distinct (uniqueRepos seen xs)"
  by (induction seen xs rule: uniqueRepos.induct) (auto simp: uniqueRepos_set)

lemma sort_uniqueRepos: "sort (uniqueRepos [] xs) = sorted_list_of_set (set xs)"
proof -
  have "sort (uniqueRepos [] xs) = sorted_list_of_set (set (uniqueRepos [] xs))"
    using uniqueRepos_distinct[of "[]" xs]
    by (simp add: sorted_list_of_set_sort_remdups distinct_remdups_id)
  then show ?thesis
    by (simp add: uniqueRepos_set)
qed

lemma sort_uniqueRepos_Nil: "sort (uniqueRepos [] xs) = [] \<longleftrightarrow> xs = []"
  by (cases xs) (auto simp: sort_uniqueRepos)

lemma displayGroups_map_of:
  "map_of (displayGroups all ns result) =
     map_of result ++
     map_of (rev (List.map_filter
       (\<lambda>n. case GroupData n of
              None \<Rightarrow> None
            | Some gd \<Rightarrow>
                if ExplicitRepos gd @ InheritedRepos gd = [] then None
                else Some (displayName all n,
                           sorted_list_of_set (set (ExplicitRepos gd) \<union> set (InheritedRepos gd))))
       ns))"
proof (induction ns arbitrary: result)
  case Nil
  then show ?case by (simp add: List.map_filter_simps)
next
  case (Cons n ns)
  show ?case
  proof (cases "GroupData n")
    case None
    then show ?thesis by (simp add: Cons.IH List.map_filter_simps)
  next
    case (Some gd)
    show ?thesis
    proof (cases "ExplicitRepos gd @ InheritedRepos gd = []")
      case True
      then have "sort (uniqueRepos [] (ExplicitRepos gd @ InheritedRepos gd)) = []"
        by (simp only: sort_uniqueRepos_Nil)
      then show ?thesis
        using Some True by (simp add: Cons.IH List.map_filter_simps Let_def)
    next
      case False
      then have ne: "sort (uniqueRepos [] (ExplicitRepos gd @ InheritedRepos gd)) \<noteq> []"
        by (simp only: sort_uniqueRepos_Nil) simp
      have v: "sort (uniqueRepos [] (ExplicitRepos gd @ InheritedRepos gd))
                 = sorted_list_of_set (set (ExplicitRepos gd) \<union> set (InheritedRepos gd))"
        by (simp add: sort_uniqueRepos)
      let ?k = "displayName all n"
      let ?v = "sorted_list_of_set (set (ExplicitRepos gd) \<union> set (InheritedRepos gd))"
      let ?f = "\<lambda>n. case GroupData n of
              None \<Rightarrow> None
            | Some gd \<Rightarrow>
                if ExplicitRepos gd @ InheritedRepos gd = [] then None
                else Some (displayName all n,
                           sorted_list_of_set (set (ExplicitRepos gd) \<union> set (InheritedRepos gd)))"
      have dg: "displayGroups all (n # ns) result = displayGroups all ns (AList.update ?k ?v result)"
        using Some ne v by (simp add: Let_def)
      have mf: "List.map_filter ?f (n # ns) = (?k, ?v) # List.map_filter ?f ns"
        using Some False by (simp add: List.map_filter_simps)
      have "map_of (displayGroups all (n # ns) result)
              = (map_of result)(?k \<mapsto> ?v) ++ map_of (rev (List.map_filter ?f ns))"
        unfolding dg Cons.IH by (simp add: update_conv')
      also have "\<dots> = map_of result ++ map_of (rev (List.map_filter ?f (n # ns)))"
        unfolding mf by (auto simp: map_add_def fun_eq_iff split: option.splits)
      finally show ?thesis .
    qed
  qed
qed

lemma displayGroups_distinct:
  "distinct (map fst result) \<Longrightarrow> distinct (map fst (displayGroups all ns result))"
  by (induction ns arbitrary: result) (auto simp: Let_def distinct_update split: option.splits)

text \<open>
  C9, amended: \<open>GetGroupsForDisplay\<close> maps a display name to the sorted list, without
  duplicates, of the explicit and inherited members of the last group node of the type
  index that has this display name and at least one member; groups without members give no
  entry; a display name occurs once in the result; when the display names of the groups
  with members are distinct, the result has exactly one entry for each such group. The
  display name is the name of the group, prefixed with the last segment of its scope path
  when more than one group node has the name, the scope path is not \<open>root\<close> and its last
  segment is not \<open>root\<close>.
\<close>

theorem groups_for_display:
  "map_of (GetGroupsForDisplay g) = map_of (rev (displayEntries g))
   \<and> distinct (map fst (GetGroupsForDisplay g))
   \<and> (distinct (map fst (displayEntries g)) \<longrightarrow>
        set (GetGroupsForDisplay g) = set (displayEntries g))
   \<and> displayName ns n =
       (if 1 < length (filter (\<lambda>m. Name m = Name n) ns) \<and> GetPathString n \<noteq> ''root''
           \<and> last (Split (GetPathString n) CHR ''/'') \<noteq> ''root''
        then last (Split (GetPathString n) CHR ''/'') @ ''-'' @ Name n
        else Name n)"
proof (intro conjI impI)
  show m: "map_of (GetGroupsForDisplay g) = map_of (rev (displayEntries g))"
    by (simp add: GetGroupsForDisplay_def displayEntries_def displayGroups_map_of)
  show d: "distinct (map fst (GetGroupsForDisplay g))"
    by (simp add: GetGroupsForDisplay_def displayGroups_distinct)
  show "set (GetGroupsForDisplay g) = set (displayEntries g)"
    if "distinct (map fst (displayEntries g))"
  proof -
    have "distinct (map fst (rev (displayEntries g)))"
      using that by (simp add: rev_map[symmetric])
    then have "set (GetGroupsForDisplay g) = set (rev (displayEntries g))"
      using d m map_of_inject_set by blast
    then show ?thesis by simp
  qed
  show "displayName ns n =
       (if 1 < length (filter (\<lambda>m. Name m = Name n) ns) \<and> GetPathString n \<noteq> ''root''
           \<and> last (Split (GetPathString n) CHR ''/'') \<noteq> ''root''
        then last (Split (GetPathString n) CHR ''/'') @ ''-'' @ Name n
        else Name n)"
    by (simp add: displayName_def Let_def Split_def splitAcc_not_Nil)
qed

lemma team_display_facts:
  "case BuildGraph 4 (exampleEnv teamFiles) NewGraphBuilder ''/w/configs/team/main.yaml'' of
     Some (Inr g) \<Rightarrow>
       distinct (map fst (displayEntries g))
       \<and> displayEntries g = [(''team-all'', [''core'']), (''sub-all'', [''util''])]
   | _ \<Rightarrow> False"
  by code_simp

theorem groups_for_display_witness:
  "case BuildGraph 4 (exampleEnv teamFiles) NewGraphBuilder ''/w/configs/team/main.yaml'' of
     Some (Inr g) \<Rightarrow>
       distinct (map fst (displayEntries g))
       \<and> set (GetGroupsForDisplay g) = set (displayEntries g)
       \<and> set (GetGroupsForDisplay g) = {(''team-all'', [''core'']), (''sub-all'', [''util''])}
   | _ \<Rightarrow> False"
proof -
  obtain g where
    build: "BuildGraph 4 (exampleEnv teamFiles) NewGraphBuilder ''/w/configs/team/main.yaml'' = Some (Inr g)"
    and d: "distinct (map fst (displayEntries g))"
    and e: "displayEntries g = [(''team-all'', [''core'']), (''sub-all'', [''util''])]"
    using team_display_facts by (auto split: option.splits sum.splits)
  have "set (GetGroupsForDisplay g) = set (displayEntries g)"
    using groups_for_display[of g] d by blast
  then show ?thesis
    unfolding build using d e by simp
qed

subsection \<open>Circular includes\<close>

lemma errorOf_Some: "errorOf r = Some e \<longleftrightarrow> r = Some (Inl e)"
  by (auto simp: errorOf_def split: option.splits sum.splits)

text \<open>
  C3, as the claim states it, fails: the build of the diamond does not succeed. The second
  visit of \<open>d.yaml\<close> passes the cycle check, and then \<open>AddNode\<close> refuses its configuration
  node, whose ID is the one the first visit used.
\<close>

theorem diamond_include_counterexample:
  "errorOf (BuildGraph 3 (exampleEnv diamondFiles) NewGraphBuilder ''/w/a.yaml'') =
     Some (Wrap ''failed to build configuration hierarchy''
            (Wrap ''failed to build included hierarchy /w/c.yaml''
              (Wrap ''failed to build included hierarchy /w/d.yaml''
                (Wrap ''failed to add config node'' (NodeExists ''config_c75f9d2a'')))))"
  by code_simp

text \<open>The marks of \<open>visited\<close> are the recursion stack: with the marks of a stack,
  \<open>buildConfigHierarchy\<close> computes what the expansion on that stack computes, and returns
  the builder as it received it.\<close>

lemma visited_pop:
  "\<not> visited (b::GraphBuilder) a \<Longrightarrow>
     b \<lparr> visited := (visited b)(a := True) \<rparr> \<lparr> visited := ((visited b)(a := True))(a := False) \<rparr> = b"
proof -
  assume "\<not> visited b a"
  then have "((visited b)(a := True))(a := False) = visited b"
    by (simp add: fun_eq_iff)
  then show ?thesis by simp
qed

lemma visited_is_stack:
  "visited (fst s) = (\<lambda>x. x \<in> set stack) \<Longrightarrow>
     buildConfigHierarchy k env p parentID s
       = map_option (map_sum (\<lambda>e. e) (Pair (fst s))) (expandOnStack k env p parentID stack (snd s))"
  "visited (fst s) = (\<lambda>x. x \<in> set stack) \<Longrightarrow>
     buildIncludes k env dir incs cid s
       = map_option (map_sum (\<lambda>e. e) (Pair (fst s))) (expandIncludesOnStack k env dir incs cid stack (snd s))"
proof (induction k env p parentID s and k env dir incs cid s arbitrary: stack and stack
       rule: buildConfigHierarchy_buildIncludes.induct)
  case (1 env configPath parentID s)
  then show ?case by simp
next
  case (2 k env configPath parentID b g)
  have v: "visited b = (\<lambda>x. x \<in> set stack)" using "2.prems" by simp
  show ?case
  proof (cases "fileAbs env configPath")
    case None
    then show ?thesis by simp
  next
    case (Some a)
    show ?thesis
    proof (cases "visited b a")
      case True
      then show ?thesis using Some v by simp
    next
      case nv: False
      then have ns: "a \<notin> set stack" using v by simp
      show ?thesis
      proof (cases "loadConfig env a")
        case None
        then show ?thesis using Some nv ns by simp
      next
        case c: (Some c)
        show ?thesis
        proof (cases "AddNode (createConfigNode env a c) g")
          case (Inl e)
          then show ?thesis using Some nv ns c by simp
        next
          case g1: (Inr g1)
          show ?thesis
          proof (cases "GetNode g1 parentID")
            case None
            then show ?thesis using Some nv ns c g1 by simp
          next
            case pn: (Some parentNode)
            show ?thesis
            proof (cases "AddRelationship
                   (NewRelationship (''pc_'' @ ID parentNode @ ''_'' @ ID (createConfigNode env a c))
                      parentNode (createConfigNode env a c) RelationParentChild)
                   (attachChild parentID parentNode (cachePath (createConfigNode env a c)) g1)")
              case (Inl e)
              then show ?thesis using Some nv ns c g1 pn by simp
            next
              case g3: (Inr g3)
              let ?b1 = "b \<lparr> visited := (visited b)(a := True) \<rparr>"
              have v1: "visited (fst (?b1, g3)) = (\<lambda>x. x \<in> set (a # stack))"
                using v by (auto simp: fun_eq_iff)
              have ih: "buildIncludes k env (fileDir env a) (Includes c) (ID (createConfigNode env a c)) (?b1, g3)
                  = map_option (map_sum (\<lambda>e. e) (Pair ?b1))
                      (expandIncludesOnStack k env (fileDir env a) (Includes c)
                         (ID (createConfigNode env a c)) (a # stack) g3)"
                using "2.IH"[OF Some nv c refl g1 pn g3 v1] by simp
              have pop: "?b1 \<lparr> visited := (visited ?b1)(a := False) \<rparr> = b"
                using visited_pop[OF nv] by simp
              show ?thesis
              proof (cases "expandIncludesOnStack k env (fileDir env a) (Includes c)
                         (ID (createConfigNode env a c)) (a # stack) g3")
                case None
                then show ?thesis using Some nv ns c g1 pn g3 ih by simp
              next
                case r: (Some r)
                show ?thesis
                proof (cases r)
                  case (Inl e)
                  then show ?thesis using Some nv ns c g1 pn g3 ih r by simp
                next
                  case (Inr g4)
                  then show ?thesis using Some nv ns c g1 pn g3 ih r pop by simp
                qed
              qed
            qed
          qed
        qed
      qed
    qed
  qed
next
  case (3 k env configDir configID s)
  then show ?case by (cases s) simp
next
  case (4 k env configDir inc rest configID s)
  let ?p = "if fileIsAbs env inc then inc else fileJoin env configDir inc"
  have first: "buildConfigHierarchy k env ?p configID s
       = map_option (map_sum (\<lambda>e. e) (Pair (fst s))) (expandOnStack k env ?p configID stack (snd s))"
    using "4.IH"(1)[OF refl "4.prems"] .
  show ?case
  proof (cases "expandOnStack k env ?p configID stack (snd s)")
    case None
    then show ?thesis using first by (simp add: Let_def)
  next
    case (Some r)
    show ?thesis
    proof (cases r)
      case (Inl e)
      then show ?thesis using first Some by (simp add: Let_def)
    next
      case (Inr g')
      then have run: "buildConfigHierarchy k env ?p configID s = Some (Inr (fst s, g'))"
        using first Some by simp
      have "buildIncludes k env configDir rest configID (fst s, g')
          = map_option (map_sum (\<lambda>e. e) (Pair (fst (fst s, g'))))
              (expandIncludesOnStack k env configDir rest configID stack (snd (fst s, g')))"
        using "4.IH"(2)[OF refl run refl, of stack] "4.prems" by simp
      then show ?thesis
        using run Some Inr by (simp add: Let_def)
    qed
  qed
qed

lemma expandIncludesOnStack_wraps:
  "expandIncludesOnStack k env dir incs cid stack g = Some (Inl e) \<Longrightarrow> \<exists>m e'. e = Wrap m e'"
  by (induction incs arbitrary: g) (auto simp: Let_def split: option.splits sum.splits)

text \<open>
  C3, amended: the expansion of a path fails with the circular-dependency error exactly
  when the path resolves to an absolute path that is on the current recursion stack, and
  the build of the cycle \<open>a\<close>, \<open>b\<close>, \<open>a\<close> fails with this error and returns no graph. A
  path that is visited again after it has left the stack is not a circular dependency; its
  configuration node is in the graph already, and the expansion fails with the
  duplicate-node error of \<open>AddNode\<close>.
\<close>

theorem cycle_detection:
  "(visited b = (\<lambda>x. x \<in> set stack) \<longrightarrow>
      buildConfigHierarchy k env p parentID (b, g)
        = map_option (map_sum (\<lambda>e. e) (Pair b)) (expandOnStack k env p parentID stack g))
   \<and> (fileAbs env p = Some a \<longrightarrow>
        (expandOnStack (Suc k) env p parentID stack g = Some (Inl (CircularDependency a))
           \<longleftrightarrow> a \<in> set stack))
   \<and> (fileAbs env p = Some a \<and> a \<notin> set stack \<and> loadConfig env a = Some c
        \<and> GetNode g (ID (createConfigNode env a c)) \<noteq> None \<longrightarrow>
        expandOnStack (Suc k) env p parentID stack g
          = Some (Inl (Wrap ''failed to add config node''
                        (NodeExists (ID (createConfigNode env a c))))))
   \<and> errorOf (BuildGraph 3 (exampleEnv cycleFiles) NewGraphBuilder ''/w/a.yaml'') =
       Some (Wrap ''failed to build configuration hierarchy''
              (Wrap ''failed to build included hierarchy /w/b.yaml''
                (Wrap ''failed to build included hierarchy /w/a.yaml''
                  (CircularDependency ''/w/a.yaml''))))"
proof (intro conjI impI)
  assume "visited b = (\<lambda>x. x \<in> set stack)"
  then show "buildConfigHierarchy k env p parentID (b, g)
        = map_option (map_sum (\<lambda>e. e) (Pair b)) (expandOnStack k env p parentID stack g)"
    using visited_is_stack(1)[of "(b, g)" stack k env p parentID] by simp
next
  assume a: "fileAbs env p = Some a"
  show "expandOnStack (Suc k) env p parentID stack g = Some (Inl (CircularDependency a))
           \<longleftrightarrow> a \<in> set stack"
  proof
    assume r: "expandOnStack (Suc k) env p parentID stack g = Some (Inl (CircularDependency a))"
    show "a \<in> set stack"
    proof (rule ccontr)
      assume n: "a \<notin> set stack"
      from r a n show False
        by (auto simp: Let_def split: option.splits sum.splits dest: expandIncludesOnStack_wraps)
    qed
  next
    assume "a \<in> set stack"
    then show "expandOnStack (Suc k) env p parentID stack g = Some (Inl (CircularDependency a))"
      using a by simp
  qed
next
  assume h: "fileAbs env p = Some a \<and> a \<notin> set stack \<and> loadConfig env a = Some c
        \<and> GetNode g (ID (createConfigNode env a c)) \<noteq> None"
  then have "AddNode (createConfigNode env a c) g = Inl (NodeExists (ID (createConfigNode env a c)))"
    by (simp add: AddNode_def)
  then show "expandOnStack (Suc k) env p parentID stack g
          = Some (Inl (Wrap ''failed to add config node''
                        (NodeExists (ID (createConfigNode env a c)))))"
    using h by simp
next
  show "errorOf (BuildGraph 3 (exampleEnv cycleFiles) NewGraphBuilder ''/w/a.yaml'') =
       Some (Wrap ''failed to build configuration hierarchy''
              (Wrap ''failed to build included hierarchy /w/b.yaml''
                (Wrap ''failed to build included hierarchy /w/a.yaml''
                  (CircularDependency ''/w/a.yaml''))))"
    by code_simp
qed

lemma cycle_facts:
  "fileAbs (exampleEnv cycleFiles) ''/w/a.yaml'' = Some ''/w/a.yaml''
   \<and> loadConfig (exampleEnv diamondFiles) ''/w/d.yaml''
       = Some (mkConfig [] [mkRepository ''shared'' [] []] [])
   \<and> fileAbs (exampleEnv diamondFiles) ''/w/d.yaml'' = Some ''/w/d.yaml''
   \<and> (case AddNode rootNode NewRepositoryGraph of
         Inr g0 \<Rightarrow>
           errorOf (expandOnStack 3 (exampleEnv cycleFiles) ''/w/a.yaml'' ''root'' [] g0)
             = Some (Wrap ''failed to build included hierarchy /w/b.yaml''
                      (Wrap ''failed to build included hierarchy /w/a.yaml''
                        (CircularDependency ''/w/a.yaml'')))
       | Inl e \<Rightarrow> False)
   \<and> (case AddNode (createConfigNode (exampleEnv diamondFiles) ''/w/d.yaml''
                      (mkConfig [] [mkRepository ''shared'' [] []] [])) NewRepositoryGraph of
         Inr g \<Rightarrow>
           GetNode g (ID (createConfigNode (exampleEnv diamondFiles) ''/w/d.yaml''
                            (mkConfig [] [mkRepository ''shared'' [] []] []))) \<noteq> None
       | Inl e \<Rightarrow> False)"
  by code_simp

theorem cycle_detection_witness:
  "(case AddNode rootNode NewRepositoryGraph of
      Inr g0 \<Rightarrow>
        visited NewGraphBuilder = (\<lambda>x. x \<in> set [])
        \<and> buildConfigHierarchy 3 (exampleEnv cycleFiles) ''/w/a.yaml'' ''root'' (NewGraphBuilder, g0)
            = Some (Inl (Wrap ''failed to build included hierarchy /w/b.yaml''
                          (Wrap ''failed to build included hierarchy /w/a.yaml''
                            (CircularDependency ''/w/a.yaml''))))
    | Inl e \<Rightarrow> False)
   \<and> fileAbs (exampleEnv cycleFiles) ''/w/a.yaml'' = Some ''/w/a.yaml''
   \<and> ''/w/a.yaml'' \<in> set [''/w/b.yaml'', ''/w/a.yaml'']
   \<and> expandOnStack 1 (exampleEnv cycleFiles) ''/w/a.yaml'' ''config_9a13f30a''
        [''/w/b.yaml'', ''/w/a.yaml''] NewRepositoryGraph
       = Some (Inl (CircularDependency ''/w/a.yaml''))
   \<and> (case AddNode (createConfigNode (exampleEnv diamondFiles) ''/w/d.yaml''
                      (mkConfig [] [mkRepository ''shared'' [] []] [])) NewRepositoryGraph of
         Inr g \<Rightarrow>
           ''/w/d.yaml'' \<notin> set [''/w/c.yaml'', ''/w/a.yaml'']
           \<and> expandOnStack 1 (exampleEnv diamondFiles) ''/w/d.yaml'' ''config_359d48a1''
                [''/w/c.yaml'', ''/w/a.yaml''] g
               = Some (Inl (Wrap ''failed to add config node'' (NodeExists ''config_c75f9d2a'')))
       | Inl e \<Rightarrow> False)"
proof -
  let ?c = "mkConfig [] [mkRepository ''shared'' [] []] []"
  let ?d = "createConfigNode (exampleEnv diamondFiles) ''/w/d.yaml'' ?c"
  obtain g0 g where
    g0: "AddNode rootNode NewRepositoryGraph = Inr g0"
    and run: "expandOnStack 3 (exampleEnv cycleFiles) ''/w/a.yaml'' ''root'' [] g0
             = Some (Inl (Wrap ''failed to build included hierarchy /w/b.yaml''
                           (Wrap ''failed to build included hierarchy /w/a.yaml''
                             (CircularDependency ''/w/a.yaml''))))"
    and g: "AddNode ?d NewRepositoryGraph = Inr g"
    and there: "GetNode g (ID ?d) \<noteq> None"
    and abs: "fileAbs (exampleEnv cycleFiles) ''/w/a.yaml'' = Some ''/w/a.yaml''"
      "fileAbs (exampleEnv diamondFiles) ''/w/d.yaml'' = Some ''/w/d.yaml''"
    and load: "loadConfig (exampleEnv diamondFiles) ''/w/d.yaml'' = Some ?c"
    using cycle_facts by (auto simp: errorOf_Some split: sum.splits)
  have v: "visited NewGraphBuilder = (\<lambda>x. x \<in> set [])"
    by (simp add: NewGraphBuilder_def)
  have 1: "buildConfigHierarchy 3 (exampleEnv cycleFiles) ''/w/a.yaml'' ''root'' (NewGraphBuilder, g0)
            = Some (Inl (Wrap ''failed to build included hierarchy /w/b.yaml''
                          (Wrap ''failed to build included hierarchy /w/a.yaml''
                            (CircularDependency ''/w/a.yaml''))))"
    using cycle_detection[where b = NewGraphBuilder and stack = "[]" and k = 3
            and env = "exampleEnv cycleFiles" and p = "''/w/a.yaml''" and parentID = "''root''"
            and g = g0] v run
    by simp
  have 2: "expandOnStack 1 (exampleEnv cycleFiles) ''/w/a.yaml'' ''config_9a13f30a''
        [''/w/b.yaml'', ''/w/a.yaml''] NewRepositoryGraph
       = Some (Inl (CircularDependency ''/w/a.yaml''))"
    using cycle_detection[where env = "exampleEnv cycleFiles" and p = "''/w/a.yaml''"
            and a = "''/w/a.yaml''" and stack = "[''/w/b.yaml'', ''/w/a.yaml'']" and k = 0
            and parentID = "''config_9a13f30a''" and g = NewRepositoryGraph] abs(1)
    by simp
  have id: "ID ?d = ''config_c75f9d2a''"
    by code_simp
  have 3: "expandOnStack 1 (exampleEnv diamondFiles) ''/w/d.yaml'' ''config_359d48a1''
                [''/w/c.yaml'', ''/w/a.yaml''] g
               = Some (Inl (Wrap ''failed to add config node'' (NodeExists ''config_c75f9d2a'')))"
    using cycle_detection[where env = "exampleEnv diamondFiles" and p = "''/w/d.yaml''"
            and a = "''/w/d.yaml''" and stack = "[''/w/c.yaml'', ''/w/a.yaml'']" and k = 0
            and parentID = "''config_359d48a1''" and g = g and c = ?c] abs(2) load there
    unfolding id by simp
  show ?thesis
    unfolding g0 g using v 1 2 3 abs(1) by simp
qed

subsection \<open>Errors in the derivation of tags and labels\<close>

lemma addTags_succeeds: "\<exists>s'. addTags scope fromNode tags s = Inr s'"
proof (induction tags arbitrary: s)
  case Nil
  then show ?case by simp
next
  case (Cons t rest)
  obtain tname tvalue where t: "t = (tname, tvalue)" by (cases t)
  obtain createdTags g where s: "s = (createdTags, g)" by (cases s)
  obtain tagNode createdTags' where c: "createOrGetTagNode tname tvalue scope fromNode createdTags = (tagNode, createdTags')"
    by (cases "createOrGetTagNode tname tvalue scope fromNode createdTags")
  have "\<exists>g1. (if GetNode g (ID tagNode) = None then AddNode tagNode g else Inr g) = Inr g1"
    by (simp add: AddNode_def)
  then obtain g1 where g1: "(if GetNode g (ID tagNode) = None then AddNode tagNode g else Inr g) = Inr g1"
    by blast
  show ?case
    unfolding t s using c g1 Cons.IH by simp
qed

lemma addLabels_succeeds: "\<exists>s'. addLabels scope fromNode labels s = Inr s'"
proof (induction labels arbitrary: s)
  case Nil
  then show ?case by simp
next
  case (Cons lname rest)
  obtain createdLabels g where s: "s = (createdLabels, g)" by (cases s)
  obtain labelNode createdLabels' where c: "createOrGetLabelNode lname scope fromNode createdLabels = (labelNode, createdLabels')"
    by (cases "createOrGetLabelNode lname scope fromNode createdLabels")
  have "\<exists>g1. (if GetNode g (ID labelNode) = None then AddNode labelNode g else Inr g) = Inr g1"
    by (simp add: AddNode_def)
  then obtain g1 where g1: "(if GetNode g (ID labelNode) = None then AddNode labelNode g else Inr g) = Inr g1"
    by blast
  show ?case
    unfolding s using c g1 Cons.IH by simp
qed

lemma tagsOfConfigs_succeeds: "\<exists>s'. tagsOfConfigs ns s = Inr s'"
proof (induction ns arbitrary: s)
  case Nil
  show ?case by (cases s rule: prod_cases3) simp
next
  case (Cons n ns)
  obtain ct cl g where s: "s = (ct, cl, g)" using prod_cases3 by blast
  show ?case
  proof (cases "ConfigData n")
    case None
    then show ?thesis unfolding s using Cons.IH by simp
  next
    case (Some c)
    obtain ct' g1 where a: "addTags ''global'' n (globalTags (Global c)) (ct, g) = Inr (ct', g1)"
      using addTags_succeeds[of "''global''" n "globalTags (Global c)" "(ct, g)"] by auto
    obtain cl' g2 where b: "addLabels ''global'' n (globalLabels (Global c)) (cl, g1) = Inr (cl', g2)"
      using addLabels_succeeds[of "''global''" n "globalLabels (Global c)" "(cl, g1)"] by auto
    show ?thesis
      unfolding s using Some a b Cons.IH by simp
  qed
qed

lemma tagsOfRepositories_succeeds: "\<exists>s'. tagsOfRepositories ns s = Inr s'"
proof (induction ns arbitrary: s)
  case Nil
  show ?case by (cases s rule: prod_cases3) simp
next
  case (Cons n ns)
  obtain ct cl g where s: "s = (ct, cl, g)" using prod_cases3 by blast
  show ?case
  proof (cases "RepositoryData n")
    case None
    then show ?thesis unfolding s using Cons.IH by simp
  next
    case (Some r)
    obtain ct' g1 where a: "addTags ''repository'' n (repoTags r) (ct, g) = Inr (ct', g1)"
      using addTags_succeeds[of "''repository''" n "repoTags r" "(ct, g)"] by auto
    obtain cl' g2 where b: "addLabels ''repository'' n (repoLabels r) (cl, g1) = Inr (cl', g2)"
      using addLabels_succeeds[of "''repository''" n "repoLabels r" "(cl, g1)"] by auto
    show ?thesis
      unfolding s using Some a b Cons.IH by simp
  qed
qed

text \<open>
  C7 does not hold of the code. \<open>processTagsAndLabels\<close> returns no error on any graph,
  although the insertions of its relationships can fail: a repository whose label list has
  \<open>backend\<close> twice makes the second \<open>createLabelRelationship\<close> fail with the
  duplicate-relationship error (the same call on the built graph, which holds the
  relationship once, returns that error), and the build succeeds.
\<close>

theorem tag_step_drops_errors:
  "(\<exists>g'. processTagsAndLabels g = Inr g')
   \<and> (case BuildGraph 3 (exampleEnv duplicateLabelFiles) NewGraphBuilder ''/w/gorepos.yaml'' of
         Some (Inr g) \<Rightarrow>
           (case (GetNode g ''repo_svc'', GetNode g ''label_backend'') of
              (Some r, Some l) \<Rightarrow>
                map_option repoLabels (RepositoryData r) = Some [''backend'', ''backend'']
                \<and> map fst (Relationships g)
                    = [''pc_root_config_b9680d09'', ''def_config_b9680d09_repo_svc'',
                       ''labeled_repo_svc_label_backend'']
                \<and> (case createLabelRelationship g r l of
                      Inl e \<Rightarrow> e = RelationshipExists ''labeled_repo_svc_label_backend''
                    | Inr g' \<Rightarrow> False)
            | _ \<Rightarrow> False)
       | _ \<Rightarrow> False)"
proof (intro conjI)
  obtain ct cl g1 where a: "tagsOfConfigs (GetNodesByType g NodeTypeConfig) ((\<lambda>_. None), (\<lambda>_. None), g) = Inr (ct, cl, g1)"
    using tagsOfConfigs_succeeds[of "GetNodesByType g NodeTypeConfig" "((\<lambda>_. None), (\<lambda>_. None), g)"]
    by auto
  obtain ct' cl' g2 where b: "tagsOfRepositories (GetNodesByType g1 NodeTypeRepository) (ct, cl, g1) = Inr (ct', cl', g2)"
    using tagsOfRepositories_succeeds[of "GetNodesByType g1 NodeTypeRepository" "(ct, cl, g1)"]
    by auto
  show "\<exists>g'. processTagsAndLabels g = Inr g'"
    using a b by (simp add: processTagsAndLabels_def)
next
  show "case BuildGraph 3 (exampleEnv duplicateLabelFiles) NewGraphBuilder ''/w/gorepos.yaml'' of
         Some (Inr g) \<Rightarrow>
           (case (GetNode g ''repo_svc'', GetNode g ''label_backend'') of
              (Some r, Some l) \<Rightarrow>
                map_option repoLabels (RepositoryData r) = Some [''backend'', ''backend'']
                \<and> map fst (Relationships g)
                    = [''pc_root_config_b9680d09'', ''def_config_b9680d09_repo_svc'',
                       ''labeled_repo_svc_label_backend'']
                \<and> (case createLabelRelationship g r l of
                      Inl e \<Rightarrow> e = RelationshipExists ''labeled_repo_svc_label_backend''
                    | Inr g' \<Rightarrow> False)
            | _ \<Rightarrow> False)
       | _ \<Rightarrow> False"
    by code_simp
qed

end
